theory Spec2Isabelle
  imports Main "HOL-Library.Sublist" "HOL-Library.Word"
begin


section \<open>Path normalisation (RouteReflector)\<close>

text \<open>
  Paths are JavaScript strings, modelled as \<open>string\<close> (lists of characters).
  The regular expressions of the source are written out as the list functions they
  denote; every replacement is the global, left-to-right, non-overlapping one of
  \<open>String.prototype.replace\<close> with the \<open>g\<close> flag.
\<close>

definition backslash :: char where
  "backslash = CHR 0x5C"

definition dollar :: char where
  "dollar = CHR 0x24"

definition caret :: char where
  "caret = CHR 0x5E"

definition slash :: char where
  "slash = CHR ''/''"

definition colon :: char where
  "colon = CHR '':''"

text \<open>\<open>s.replace(/pat/g, rep)\<close> for a literal, non-empty pattern.\<close>

function replaceLit :: "string \<Rightarrow> string \<Rightarrow> string \<Rightarrow> string" where
  "replaceLit pat rep [] = []"
| "replaceLit pat rep (c # cs) =
     (if pat \<noteq> [] \<and> prefix pat (c # cs)
      then rep @ replaceLit pat rep (drop (length pat) (c # cs))
      else c # replaceLit pat rep cs)"
  by pat_completeness auto
termination
  by (relation "measure (\<lambda>(pat, rep, s). length s)") auto

text \<open>\<open>.replace(/\\/g, '')\<close>\<close>

definition removeBackslashes :: "string \<Rightarrow> string" where
  "removeBackslashes s = filter (\<lambda>c. c \<noteq> backslash) s"

text \<open>\<open>.replace(/\?\(\?=\/\|\$\)/g, '')\<close>: the literal text \<open>?(?=/|$)\<close>.\<close>

definition lookaheadArtifact :: string where
  "lookaheadArtifact = [CHR ''?'', CHR ''('', CHR ''?'', CHR ''='', slash, CHR ''|'', dollar, CHR '')'']"

definition removeLookahead :: "string \<Rightarrow> string" where
  "removeLookahead s = replaceLit lookaheadArtifact [] s"

text \<open>\<open>.replace(/\^\//g, '/')\<close>\<close>

definition replaceCaretSlash :: "string \<Rightarrow> string" where
  "replaceCaretSlash s = replaceLit [caret, slash] [slash] s"

text \<open>\<open>.replace(/\$$/g, '')\<close>: one dollar sign at the very end of the string.\<close>

definition removeEndDollar :: "string \<Rightarrow> string" where
  "removeEndDollar s = (if s \<noteq> [] \<and> last s = dollar then butlast s else s)"

text \<open>\<open>.replace(/\/+/g, '/')\<close>: every maximal run of slashes becomes one slash.\<close>

fun collapseSlashes :: "string \<Rightarrow> string" where
  "collapseSlashes [] = []"
| "collapseSlashes [c] = [c]"
| "collapseSlashes (c # d # cs) =
     (if c = slash \<and> d = slash then collapseSlashes (d # cs)
      else c # collapseSlashes (d # cs))"

text \<open>The four artifact-removing replacements of \<open>_cleanPath\<close>, in source order.\<close>

definition stripArtifacts :: "string \<Rightarrow> string" where
  "stripArtifacts s = removeEndDollar (replaceCaretSlash (removeLookahead (removeBackslashes s)))"

text \<open>\<open>if (!path.startsWith('/')) path = '/' + path\<close>\<close>

definition ensureLeadingSlash :: "string \<Rightarrow> string" where
  "ensureLeadingSlash s = (case s of [] \<Rightarrow> [slash] | c # cs \<Rightarrow> if c = slash then s else slash # s)"

text \<open>\<open>RouteReflector._cleanPath\<close>; \<open>!path\<close> holds of the empty string.\<close>

definition cleanPath :: "string \<Rightarrow> string" where
  "cleanPath p = (if p = [] then [slash]
                  else ensureLeadingSlash (collapseSlashes (stripArtifacts p)))"

text \<open>
  \<open>RouteReflector._extractPathParameters\<close>: the loop
  \<open>while ((match = paramRegex.exec(path)) !== null) params.push(match[1])\<close> with
  \<open>paramRegex = /:([a-zA-Z_][a-zA-Z0-9_]*)/g\<close>.  The search resumes right after the
  previous match (\<open>lastIndex\<close>); the quantifier is greedy.
\<close>

definition identStart :: "char \<Rightarrow> bool" where
  "identStart c \<longleftrightarrow> c \<in> set ''abcdefghijklmnopqrstuvwxyzABCDEFGHIJKLMNOPQRSTUVWXYZ_''"

definition identChar :: "char \<Rightarrow> bool" where
  "identChar c \<longleftrightarrow> identStart c \<or> c \<in> set ''0123456789''"

function extractPathParameters :: "string \<Rightarrow> string list" where
  "extractPathParameters [] = []"
| "extractPathParameters (c # cs) =
     (if c = colon \<and> cs \<noteq> [] \<and> identStart (hd cs)
      then takeWhile identChar cs # extractPathParameters (dropWhile identChar cs)
      else extractPathParameters cs)"
  by pat_completeness auto
termination
  by (relation "measure length") (auto simp: length_dropWhile_le less_Suc_eq_le)

text \<open>
  The specification's reading of a path: every position that holds a colon directly
  followed by an identifier contributes that identifier, positions taken left to right.
\<close>

definition tokenAt :: "string \<Rightarrow> string list" where
  "tokenAt s = (case s of
      c # d # r \<Rightarrow> if c = colon \<and> identStart d then [takeWhile identChar (d # r)] else []
    | _ \<Rightarrow> [])"

primrec colonTokens :: "string \<Rightarrow> string list" where
  "colonTokens [] = []"
| "colonTokens (c # cs) = tokenAt (c # cs) @ colonTokens cs"

section \<open>JavaScript values\<close>

text \<open>
  The values the analyser, the builder and the version manager pass around.  Literals
  taken from handler source, field names, parameter names and status codes are
  primitive values.  A number is a non-negative integer below \<open>2^53\<close>, the range in
  which a numeric literal of the source is one exact value whose text is its decimal
  digits.
\<close>

type_synonym number = "53 word"

datatype primitive =
    PUndefined
  | PNull
  | PBool bool
  | PNum number
  | PStr string

text \<open>
  Abstracted object shapes and JSON schemas are primitive values, arrays and plain
  objects.  An object is the list of its own properties in the order in which
  JavaScript enumerates them.
\<close>

datatype jsval =
    JPrim primitive
  | JArr "jsval list"
  | JObj "(string \<times> jsval) list"

abbreviation JUndefined :: jsval where
  "JUndefined \<equiv> JPrim PUndefined"

abbreviation JNull :: jsval where
  "JNull \<equiv> JPrim PNull"

abbreviation JBool :: "bool \<Rightarrow> jsval" where
  "JBool b \<equiv> JPrim (PBool b)"

abbreviation JNum :: "number \<Rightarrow> jsval" where
  "JNum n \<equiv> JPrim (PNum n)"

abbreviation JStr :: "string \<Rightarrow> jsval" where
  "JStr s \<equiv> JPrim (PStr s)"

text \<open>Truthiness, of a primitive value and of any value.\<close>

fun truthyPrimitive :: "primitive \<Rightarrow> bool" where
  "truthyPrimitive PUndefined = False"
| "truthyPrimitive PNull = False"
| "truthyPrimitive (PBool b) = b"
| "truthyPrimitive (PNum n) = (n \<noteq> 0)"
| "truthyPrimitive (PStr s) = (s \<noteq> [])"

fun truthy :: "jsval \<Rightarrow> bool" where
  "truthy (JPrim p) = truthyPrimitive p"
| "truthy (JArr xs) = True"
| "truthy (JObj kvs) = True"

fun natToString :: "nat \<Rightarrow> string" where
  "natToString n =
     (if n < 10 then [''0123456789'' ! n]
      else natToString (n div 10) @ [''0123456789'' ! (n mod 10)])"

declare natToString.simps [simp del]

fun joinWith :: "string \<Rightarrow> string list \<Rightarrow> string" where
  "joinWith sep [] = []"
| "joinWith sep [x] = x"
| "joinWith sep (x # y # ys) = x @ sep @ joinWith sep (y # ys)"

text \<open>The text of a primitive value in a template literal or as a property key, and
  \<open>Array.prototype.join\<close> on an array of primitive values.\<close>

fun toStr :: "primitive \<Rightarrow> string" where
  "toStr PUndefined = ''undefined''"
| "toStr PNull = ''null''"
| "toStr (PBool b) = (if b then ''true'' else ''false'')"
| "toStr (PNum n) = natToString (unat n)"
| "toStr (PStr s) = s"

definition joinValues :: "string \<Rightarrow> primitive list \<Rightarrow> string" where
  "joinValues sep xs =
     joinWith sep (map (\<lambda>x. if x = PUndefined \<or> x = PNull then [] else toStr x) xs)"

text \<open>The value of a text of decimal digits.\<close>

definition isNumber :: "string \<Rightarrow> bool" where
  "isNumber s \<longleftrightarrow> s \<noteq> [] \<and> list_all (\<lambda>c. c \<in> set ''0123456789'') s"

definition digitValue :: "char \<Rightarrow> nat" where
  "digitValue c = length (takeWhile (\<lambda>d. d \<noteq> c) ''0123456789'')"

definition numberValue :: "string \<Rightarrow> nat" where
  "numberValue s = foldl (\<lambda>n c. 10 * n + digitValue c) 0 s"

text \<open>
  Storing an entry under a key as \<open>Map.prototype.set\<close> does: an existing key keeps its
  place, a new one is added at the end.
\<close>

fun setProp :: "'k \<Rightarrow> 'v \<Rightarrow> ('k \<times> 'v) list \<Rightarrow> ('k \<times> 'v) list" where
  "setProp k v [] = [(k, v)]"
| "setProp k v (p # ps) = (if fst p = k then (k, v) # ps else p # setProp k v ps)"

text \<open>
  Defining an own property of an object, as an object literal and object spread do.
  An existing property keeps its place.  A new property whose key is an array index
  (the canonical text of an integer below \<open>2^32 - 1\<close>) is enumerated among the array
  indices, in ascending order and before every other key; any other new property is
  enumerated last.
\<close>

definition isArrayIndex :: "string \<Rightarrow> bool" where
  "isArrayIndex k \<longleftrightarrow>
     isNumber k \<and> (k = ''0'' \<or> hd k \<in> set ''123456789'') \<and> numberValue k < 4294967295"

fun insertIndex :: "string \<Rightarrow> jsval \<Rightarrow> (string \<times> jsval) list \<Rightarrow> (string \<times> jsval) list" where
  "insertIndex k v [] = [(k, v)]"
| "insertIndex k v (p # ps) =
     (if isArrayIndex (fst p) \<and> numberValue (fst p) < numberValue k
      then p # insertIndex k v ps else (k, v) # p # ps)"

definition defineProp :: "string \<Rightarrow> jsval \<Rightarrow> (string \<times> jsval) list \<Rightarrow> (string \<times> jsval) list" where
  "defineProp k v obj =
     (if k \<in> fst ` set obj then setProp k v obj
      else if isArrayIndex k then insertIndex k v obj
      else obj @ [(k, v)])"

text \<open>
  The assignment \<open>obj[key] = value\<close> on a plain object.  The key \<open>__proto__\<close> is the
  prototype accessor of every plain object: assigning to it stores no property (it
  changes the prototype when the value is an object or \<open>null\<close>, and does nothing else).
  Every other key names no accessor, and the assignment defines the property.
\<close>

definition assignProp :: "string \<Rightarrow> jsval \<Rightarrow> (string \<times> jsval) list \<Rightarrow> (string \<times> jsval) list" where
  "assignProp k v obj = (if k = ''__proto__'' then obj else defineProp k v obj)"

text \<open>\<open>new Map(entries)\<close>, \<open>map.has(key)\<close>, \<open>map.get(key)\<close>; iteration follows the list.\<close>

definition newMap :: "('k \<times> 'v) list \<Rightarrow> ('k \<times> 'v) list" where
  "newMap entries = foldl (\<lambda>m (k, v). setProp k v m) [] entries"

definition mapHas :: "('k \<times> 'v) list \<Rightarrow> 'k \<Rightarrow> bool" where
  "mapHas m k \<longleftrightarrow> k \<in> fst ` set m"

definition mapGet :: "('k \<times> 'v) list \<Rightarrow> 'k \<Rightarrow> 'v option" where
  "mapGet m k = map_of m k"

text \<open>\<open>new Set(values)\<close> on primitive values, which a set compares by equality: first
  occurrences, in order.\<close>

definition newSet :: "primitive list \<Rightarrow> primitive list" where
  "newSet xs = foldl (\<lambda>s x. if x \<in> set s then s else s @ [x]) [] xs"

section \<open>Documentation records\<close>

text \<open>
  A parameter descriptor; the source field \<open>in\<close> is named \<open>location\<close> and \<open>type\<close> is
  named \<open>paramType\<close> here.  The name is a primitive value: a name of the route path or
  a field that the analyser recorded.  The minimal documentation omits the description.
\<close>

record parameterDescriptor =
  name :: primitive
  location :: string
  paramType :: string
  required :: bool
  description :: "string option"

text \<open>
  The metadata of a documentation: \<open>{isAsync, parameterCount}\<close> when it was built, or
  \<open>{error, partial: true}\<close> with the message of the error when it is the minimal one.
\<close>

datatype metadata =
    Built bool nat
  | Partial string

text \<open>
  The documentation of one endpoint, as the builder makes it and as a snapshot holds it.
  A schema that is not set is \<open>null\<close>; the status codes are primitive values, the
  literals that the analyser recorded; \<open>exampleResponse\<close> is the source field
  \<open>examples.response\<close>; \<open>breakingChange\<close> is the truth value of the field of that name,
  which the builder never sets.  The source field \<open>method\<close> is named \<open>httpMethod\<close>.
\<close>

record documentation =
  httpMethod :: string
  path :: string
  handlerName :: string
  handlerType :: string
  middleware :: "string list"
  parameters :: "parameterDescriptor list"
  requestSchema :: jsval
  responseSchema :: jsval
  statusCodes :: "primitive list"
  exampleResponse :: "jsval option"
  metadata :: metadata
  breakingChange :: bool
  breakingChangeDescription :: "string option"

section \<open>Change analysis (SemanticVersionManager)\<close>

record changeSet =
  breakingChanges :: "string list"
  newEndpoints :: "string list"
  modifiedEndpoints :: "string list"
  deprecatedEndpoints :: "string list"
  internalChanges :: "string list"

record changeAnalysis =
  bumpType :: string
  bumpReason :: string
  changes :: changeSet

text \<open>The result of \<open>_detectModifications\<close>; its list of reasons is the source field
  \<open>breakingChanges\<close> of that result object.\<close>

record modifications =
  hasChanges :: bool
  hasBreakingChanges :: bool
  hasInternalChanges :: bool
  breakingReasons :: "string list"

text \<open>The map key \<open>`${doc.method}:${doc.path}`\<close> and the label \<open>`${doc.method} ${doc.path}`\<close>.\<close>

definition docKey :: "documentation \<Rightarrow> string" where
  "docKey d = httpMethod d @ '':'' @ path d"

definition endpointLabel :: "documentation \<Rightarrow> string" where
  "endpointLabel d = httpMethod d @ '' '' @ path d"

text \<open>\<open>Object.keys\<close> of a value that passed a truthiness test.\<close>

fun objectKeys :: "jsval \<Rightarrow> string list" where
  "objectKeys (JObj kvs) = map fst kvs"
| "objectKeys (JArr xs) = map natToString [0..<length xs]"
| "objectKeys (JStr s) = map natToString [0..<length s]"
| "objectKeys v = []"

text \<open>Property read \<open>v.key\<close> on a value that is not null or undefined.\<close>

fun getProp :: "jsval \<Rightarrow> string \<Rightarrow> jsval" where
  "getProp (JObj kvs) k = (case map_of kvs k of Some v \<Rightarrow> v | None \<Rightarrow> JUndefined)"
| "getProp v k = JUndefined"

definition schemaProps :: "jsval \<Rightarrow> string list" where
  "schemaProps schema =
     (if truthy (getProp schema ''properties'') then objectKeys (getProp schema ''properties'')
      else [])"

definition hasResponseSchemaChanged :: "jsval \<Rightarrow> jsval \<Rightarrow> bool" where
  "hasResponseSchemaChanged oldSchema newSchema =
     (if \<not> truthy oldSchema \<and> \<not> truthy newSchema then False
      else if \<not> truthy oldSchema \<or> \<not> truthy newSchema then True
      else list_ex (\<lambda>prop. prop \<notin> set (schemaProps newSchema)) (schemaProps oldSchema))"

definition requiredNames :: "documentation \<Rightarrow> primitive list" where
  "requiredNames d = newSet (map name (filter required (parameters d)))"

text \<open>
  \<open>SemanticVersionManager._detectModifications\<close>, first the body of its loop over the
  new required parameters.  The middleware lists are lists of names; the source compares
  their \<open>JSON.stringify\<close> texts, which differ exactly when the lists do.
\<close>

definition requiredParamStep ::
  "primitive list \<Rightarrow> documentation \<Rightarrow> modifications \<Rightarrow> primitive \<Rightarrow> modifications" where
  "requiredParamStep oldRequiredParams newDoc result param =
     (if param \<notin> set oldRequiredParams
      then result \<lparr> hasBreakingChanges := True,
                    breakingReasons := breakingReasons result @
                      [endpointLabel newDoc @ '': New required parameter '' @ [CHR 0x27]
                         @ toStr param @ [CHR 0x27]] \<rparr>
      else result)"

definition detectModifications :: "documentation \<Rightarrow> documentation \<Rightarrow> modifications" where
  "detectModifications oldDoc newDoc =
    (let result = \<lparr> hasChanges = False, hasBreakingChanges = False,
                     hasInternalChanges = False, breakingReasons = [] \<rparr>;
         oldRequiredParams = requiredNames oldDoc;
         newRequiredParams = requiredNames newDoc;
         result = foldl (requiredParamStep oldRequiredParams newDoc) result newRequiredParams;
         result = (if hasResponseSchemaChanged (responseSchema oldDoc) (responseSchema newDoc)
                   then result \<lparr> hasBreakingChanges := True,
                                  breakingReasons := breakingReasons result @
                                    [endpointLabel newDoc @ '': Response schema changed''] \<rparr>
                   else result);
         oldCodes = newSet (statusCodes oldDoc);
         newCodes = newSet (statusCodes newDoc);
         removedCodes = filter (\<lambda>code. code \<notin> set newCodes) oldCodes;
         result = (if length removedCodes > 0
                   then result \<lparr> hasBreakingChanges := True,
                                  breakingReasons := breakingReasons result @
                                    [endpointLabel newDoc @ '': Removed status codes: ''
                                       @ joinValues '', '' removedCodes] \<rparr>
                   else result);
         result = (if breakingChange newDoc
                   then result \<lparr> hasBreakingChanges := True,
                                  breakingReasons := breakingReasons result @
                                    [endpointLabel newDoc @ '': '' @
                                      (case breakingChangeDescription newDoc of
                                         Some s \<Rightarrow> if s \<noteq> [] then s else ''Marked as breaking change''
                                       | None \<Rightarrow> ''Marked as breaking change'')] \<rparr>
                   else result);
         oldParamCount = length (parameters oldDoc);
         newParamCount = length (parameters newDoc);
         result = (if newParamCount \<noteq> oldParamCount \<and> \<not> hasBreakingChanges result
                   then result \<lparr> hasChanges := True \<rparr> else result);
         result = (if middleware oldDoc \<noteq> middleware newDoc
                   then result \<lparr> hasInternalChanges := True \<rparr> else result)
     in result)"

text \<open>The bodies of the three loops of \<open>analyzeChanges\<close>.\<close>

definition addedStep ::
  "(string \<times> documentation) list \<Rightarrow> changeSet \<Rightarrow> string \<times> documentation \<Rightarrow> changeSet" where
  "addedStep oldMap c e =
     (case e of (key, newDoc) \<Rightarrow>
        if \<not> mapHas oldMap key
        then c \<lparr> newEndpoints := newEndpoints c @ [endpointLabel newDoc] \<rparr>
        else c)"

definition removedStep ::
  "(string \<times> documentation) list \<Rightarrow> changeSet \<Rightarrow> string \<times> documentation \<Rightarrow> changeSet" where
  "removedStep newDocMap c e =
     (case e of (key, oldDoc) \<Rightarrow>
        if \<not> mapHas newDocMap key
        then c \<lparr> deprecatedEndpoints := deprecatedEndpoints c @ [endpointLabel oldDoc],
                 breakingChanges := breakingChanges c @
                   [''Removed endpoint: '' @ endpointLabel oldDoc] \<rparr>
        else c)"

definition modifiedStep ::
  "(string \<times> documentation) list \<Rightarrow> changeSet \<Rightarrow> string \<times> documentation \<Rightarrow> changeSet" where
  "modifiedStep oldMap c e =
     (case e of (key, newDoc) \<Rightarrow>
        (case mapGet oldMap key of
           None \<Rightarrow> c
         | Some oldDoc \<Rightarrow>
            (let modifications = detectModifications oldDoc newDoc;
                 c = (if hasBreakingChanges modifications
                      then c \<lparr> breakingChanges := breakingChanges c @ breakingReasons modifications \<rparr>
                      else c);
                 c = (if hasChanges modifications
                      then c \<lparr> modifiedEndpoints := modifiedEndpoints c @ [endpointLabel newDoc] \<rparr>
                      else c);
                 c = (if hasInternalChanges modifications
                      then c \<lparr> internalChanges := internalChanges c @ [endpointLabel newDoc] \<rparr>
                      else c)
             in c)))"

definition determineBump :: "changeSet \<Rightarrow> changeAnalysis" where
  "determineBump c =
     (if length (breakingChanges c) > 0
      then \<lparr> bumpType = ''major'',
             bumpReason = ''Breaking changes detected: '' @ natToString (length (breakingChanges c))
                            @ '' breaking change(s)'',
             changes = c \<rparr>
      else if length (newEndpoints c) > 0
      then \<lparr> bumpType = ''minor'',
             bumpReason = ''New features: '' @ natToString (length (newEndpoints c))
                            @ '' new endpoint(s)'',
             changes = c \<rparr>
      else if length (modifiedEndpoints c) > 0 \<or> length (internalChanges c) > 0
      then \<lparr> bumpType = ''patch'', bumpReason = ''Internal changes and improvements'',
             changes = c \<rparr>
      else \<lparr> bumpType = ''patch'', bumpReason = [], changes = c \<rparr>)"

definition analyzeChanges :: "documentation list \<Rightarrow> documentation list \<Rightarrow> changeAnalysis" where
  "analyzeChanges oldDocs newDocs =
    (let c = \<lparr> breakingChanges = [], newEndpoints = [], modifiedEndpoints = [],
                deprecatedEndpoints = [], internalChanges = [] \<rparr>;
         oldMap = newMap (map (\<lambda>doc. (docKey doc, doc)) oldDocs);
         newDocMap = newMap (map (\<lambda>doc. (docKey doc, doc)) newDocs);
         c = foldl (addedStep oldMap) c newDocMap;
         c = foldl (removedStep newDocMap) c oldMap;
         c = foldl (modifiedStep oldMap) c newDocMap
     in determineBump c)"

text \<open>An endpoint as a snapshot holds it when only method, path and an empty parameter
  list are given.\<close>

definition bareDoc :: "string \<Rightarrow> string \<Rightarrow> documentation" where
  "bareDoc m p =
     \<lparr> httpMethod = m, path = p, handlerName = [], handlerType = [], middleware = [],
       parameters = [], requestSchema = JNull, responseSchema = JNull, statusCodes = [],
       exampleResponse = None, metadata = Built False 0, breakingChange = False,
       breakingChangeDescription = None \<rparr>"

text \<open>Auxiliary notions for reasoning about the loops of \<open>analyzeChanges\<close>: the map
  built from a snapshot, and the test of the removed-endpoint loop.\<close>

definition snapshotMap :: "documentation list \<Rightarrow> (string \<times> documentation) list" where
  "snapshotMap ds = newMap (map (\<lambda>doc. (docKey doc, doc)) ds)"

definition isRemoved :: "(string \<times> documentation) list \<Rightarrow> string \<times> documentation \<Rightarrow> bool" where
  "isRemoved newDocMap e \<longleftrightarrow> \<not> mapHas newDocMap (fst e)"



section \<open>Syntax trees of handler source (ASTAnalyzer)\<close>

text \<open>
  The analyser works on the syntax tree that the parser library returns.  The node
  types the analyser inspects have a constructor each, and so has every expression
  that carries a \<open>name\<close> or a \<open>value\<close> (a \<open>BigIntLiteral\<close> carries its digits as a
  string); every other node type is \<open>Other\<close> with its type name and its children in
  visiting order.  \<open>Absent\<close> stands for a child that is \<open>null\<close> or \<open>undefined\<close> (the
  argument of a bare \<open>return\<close>, a hole of an array literal, the \<open>id\<close> of an anonymous
  function).
\<close>

datatype node =
    Absent
  | Identifier string
  | StringLiteral string
  | NumericLiteral number
  | BigIntLiteral string
  | BooleanLiteral bool
  | NullLiteral
  | TemplateLiteral "node list"
  | MemberExpression node node
  | CallExpression node "node list"
  | NewExpression node "node list"
  | ObjectExpression "node list"
  | ObjectProperty node node
  | ObjectMethod node "node list" node
  | SpreadElement node
  | ArrayExpression "node list"
  | ArrowFunctionExpression bool "node list" node
  | FunctionExpression bool node "node list" node
  | FunctionDeclaration bool node "node list" node
  | ClassMethod bool node "node list" node
  | VariableDeclarator node node
  | ThrowStatement node
  | ReturnStatement node
  | Other string "node list"

text \<open>The children of a node, in the order in which the traversal visits them.\<close>

fun children :: "node \<Rightarrow> node list" where
  "children (TemplateLiteral es) = es"
| "children (MemberExpression obj prop) = [obj, prop]"
| "children (CallExpression callee args) = callee # args"
| "children (NewExpression callee args) = callee # args"
| "children (ObjectExpression props) = props"
| "children (ObjectProperty key v) = [key, v]"
| "children (ObjectMethod key ps body) = key # ps @ [body]"
| "children (SpreadElement a) = [a]"
| "children (ArrayExpression els) = els"
| "children (ArrowFunctionExpression asy ps body) = ps @ [body]"
| "children (FunctionExpression asy fid ps body) = fid # ps @ [body]"
| "children (FunctionDeclaration asy fid ps body) = fid # ps @ [body]"
| "children (ClassMethod asy key ps body) = key # ps @ [body]"
| "children (VariableDeclarator vid ini) = [vid, ini]"
| "children (ThrowStatement a) = [a]"
| "children (ReturnStatement a) = [a]"
| "children (Other t cs) = cs"
| "children n = []"

text \<open>
  Modelled from the spec: the traversal of the parser library (\<open>@babel/traverse\<close>,
  which is not part of the sources).  Traversal is depth first and in source order;
  \<open>traverse(root, visitors)\<close> enters the nodes below the root and calls the visitor of a
  node's type when it enters the node, and no visitor of the analyser stops or
  redirects the walk.  \<open>preorder n\<close> lists \<open>n\<close> and the nodes below it in that order,
  \<open>descendants\<close> the nodes a traversal of \<open>n\<close> enters.
\<close>

function preorder :: "node \<Rightarrow> node list" where
  "preorder n = (if n = Absent then [] else n # concat (map preorder (children n)))"
  by pat_completeness auto
termination
proof (relation "measure size")
  show "wf (measure size)" by simp
next
  fix n x :: node
  assume "x \<in> set (children n)"
  then have "size x < size n"
    by (cases n) (auto simp: less_Suc_eq_le dest: size_list_estimation'[where f = size and y = "size x", OF _ order_refl])
  then show "(x, n) \<in> measure size" by simp
qed

declare preorder.simps [simp del]

definition descendants :: "node \<Rightarrow> node list" where
  "descendants n = concat (map preorder (children n))"

text \<open>The property reads \<open>node.name\<close> and \<open>node.value\<close>, and \<open>a || b\<close>.\<close>

fun nodeName :: "node \<Rightarrow> primitive" where
  "nodeName (Identifier s) = PStr s"
| "nodeName n = PUndefined"

fun nodeValue :: "node \<Rightarrow> primitive" where
  "nodeValue (StringLiteral s) = PStr s"
| "nodeValue (NumericLiteral i) = PNum i"
| "nodeValue (BigIntLiteral s) = PStr s"
| "nodeValue (BooleanLiteral b) = PBool b"
| "nodeValue n = PUndefined"

definition jsOr :: "primitive \<Rightarrow> primitive \<Rightarrow> primitive" where
  "jsOr a b = (if truthyPrimitive a then a else b)"

text \<open>\<open>args[0]\<close>\<close>

definition firstArgument :: "node list \<Rightarrow> node" where
  "firstArgument args = (case args of [] \<Rightarrow> Absent | a # as \<Rightarrow> a)"

subsection \<open>The shape abstraction\<close>

text \<open>\<open>ASTAnalyzer._extractLiteralValue\<close>\<close>

fun extractLiteralValue :: "node \<Rightarrow> primitive" where
  "extractLiteralValue Absent = PNull"
| "extractLiteralValue (StringLiteral s) = PStr s"
| "extractLiteralValue (NumericLiteral i) = PNum i"
| "extractLiteralValue (BooleanLiteral b) = PBool b"
| "extractLiteralValue (TemplateLiteral es) = PStr ''template_string''"
| "extractLiteralValue (Identifier s) = PStr (''var:'' @ s)"
| "extractLiteralValue NullLiteral = PNull"
| "extractLiteralValue n = PStr ''complex_expression''"

text \<open>
  The body of \<open>node.properties.forEach\<close> in \<open>_extractObjectStructure\<close>.  The key is
  \<open>prop.key.name || prop.key.value\<close>, turned into a property name by the assignment;
  an object method has no \<open>value\<close> child.
\<close>

definition propertyKey :: "node \<Rightarrow> string" where
  "propertyKey key = toStr (jsOr (nodeName key) (nodeValue key))"

definition propertyValue :: "node \<Rightarrow> primitive" where
  "propertyValue v =
     (let value = extractLiteralValue v in if value \<noteq> PNull then value else PStr ''unknown'')"

fun propertyStep :: "(string \<times> jsval) list \<Rightarrow> node \<Rightarrow> (string \<times> jsval) list" where
  "propertyStep obj (ObjectProperty key v) = assignProp (propertyKey key) (JPrim (propertyValue v)) obj"
| "propertyStep obj (ObjectMethod key ps body) =
     assignProp (propertyKey key) (JPrim (propertyValue Absent)) obj"
| "propertyStep obj (SpreadElement a) = assignProp ''...spread'' (JStr ''object'') obj"
| "propertyStep obj n = obj"

text \<open>\<open>ASTAnalyzer._extractObjectStructure\<close>\<close>

fun extractObjectStructure :: "node \<Rightarrow> jsval" where
  "extractObjectStructure (ObjectExpression props) = JObj (foldl propertyStep [] props)"
| "extractObjectStructure (ArrayExpression els) = JArr (map extractObjectStructure els)"
| "extractObjectStructure n = JPrim (extractLiteralValue n)"

text \<open>
  The object literal \<open>{ status: statusCode, ...structure }\<close>: spreading copies the own
  properties of an object, the elements of an array and the characters of a string
  under their indices, and nothing of any other value.
\<close>

fun ownProperties :: "jsval \<Rightarrow> (string \<times> jsval) list" where
  "ownProperties (JObj kvs) = kvs"
| "ownProperties (JArr xs) = zip (map natToString [0..<length xs]) xs"
| "ownProperties (JStr s) = zip (map natToString [0..<length s]) (map (\<lambda>c. JStr [c]) s)"
| "ownProperties v = []"

definition withStatus :: "primitive \<Rightarrow> jsval \<Rightarrow> jsval" where
  "withStatus statusCode structure =
     JObj (foldl (\<lambda>obj (k, v). defineProp k v obj) [(''status'', JPrim statusCode)]
             (ownProperties structure))"

subsection \<open>The analysis of one function\<close>

record requestUsage =
  body :: "primitive list"
  query :: "primitive list"
  params :: "primitive list"
  headers :: "primitive list"

record responseUsage =
  responseCodes :: "primitive list"
  jsonCalls :: "jsval list"
  sendCalls :: "jsval list"
  structures :: "jsval list"

text \<open>
  The result for one function.  \<open>responseCodes\<close> is the source field
  \<open>responseUsage.statusCodes\<close>, \<open>thrown\<close> is \<open>errors.thrown\<close> with its pairs of type and
  message.  The declared parameters and the flags \<open>isArrow\<close> and \<open>isClass\<close>, which no
  later stage reads, are left out.
\<close>

record functionAnalysis =
  functionName :: primitive
  isAsync :: bool
  requestUsage :: requestUsage
  responseUsage :: responseUsage
  thrown :: "(primitive \<times> primitive) list"
  returnValues :: "jsval list"

definition isRequestName :: "node \<Rightarrow> bool" where
  "isRequestName n = (case n of Identifier s \<Rightarrow> s = ''req'' \<or> s = ''request'' | _ \<Rightarrow> False)"

definition isResponseName :: "node \<Rightarrow> bool" where
  "isResponseName n = (case n of Identifier s \<Rightarrow> s = ''res'' \<or> s = ''response'' | _ \<Rightarrow> False)"

text \<open>\<open>ASTAnalyzer._analyzeMemberExpression\<close>: first the check for \<open>req.body.field\<close>.\<close>

definition recordField :: "node \<Rightarrow> node \<Rightarrow> requestUsage \<Rightarrow> requestUsage" where
  "recordField inner prop u =
     (case inner of
        MemberExpression obj2 prop2 \<Rightarrow>
          if isRequestName obj2 then
            (let reqProperty = nodeName prop2;
                 field = jsOr (nodeName prop) (nodeValue prop)
             in if reqProperty = PStr ''body'' \<and> truthyPrimitive field then u \<lparr> body := body u @ [field] \<rparr>
                else if reqProperty = PStr ''query'' \<and> truthyPrimitive field then u \<lparr> query := query u @ [field] \<rparr>
                else if reqProperty = PStr ''params'' \<and> truthyPrimitive field then u \<lparr> params := params u @ [field] \<rparr>
                else if reqProperty = PStr ''headers'' \<and> truthyPrimitive field then u \<lparr> headers := headers u @ [field] \<rparr>
                else u)
          else u
      | _ \<Rightarrow> u)"

text \<open>Then the check for a direct \<open>req.body\<close>, \<open>req.query\<close> or \<open>req.params\<close>.\<close>

definition recordWhole :: "node \<Rightarrow> node \<Rightarrow> requestUsage \<Rightarrow> requestUsage" where
  "recordWhole obj prop u =
     (if isRequestName obj then
        (let property = nodeName prop
         in if property = PStr ''body'' then u \<lparr> body := body u @ [PStr ''__ALL__''] \<rparr>
            else if property = PStr ''query'' then u \<lparr> query := query u @ [PStr ''__ALL__''] \<rparr>
            else if property = PStr ''params'' then u \<lparr> params := params u @ [PStr ''__ALL__''] \<rparr>
            else u)
      else u)"

definition analyzeMemberExpression :: "node \<Rightarrow> functionAnalysis \<Rightarrow> functionAnalysis" where
  "analyzeMemberExpression n analysis =
     (case n of
        MemberExpression obj prop \<Rightarrow>
          analysis \<lparr> requestUsage := recordWhole obj prop (recordField obj prop (requestUsage analysis)) \<rparr>
      | _ \<Rightarrow> analysis)"

text \<open>\<open>ASTAnalyzer._analyzeCallExpression\<close>, its four checks in source order.\<close>

definition recordJson :: "node \<Rightarrow> primitive \<Rightarrow> node list \<Rightarrow> responseUsage \<Rightarrow> responseUsage" where
  "recordJson obj method args r =
     (if isResponseName obj \<and> method = PStr ''json'' \<and> firstArgument args \<noteq> Absent
      then (let structure = extractObjectStructure (firstArgument args)
            in r \<lparr> jsonCalls := jsonCalls r @ [structure], structures := structures r @ [structure] \<rparr>)
      else r)"

definition recordStatus :: "node \<Rightarrow> primitive \<Rightarrow> node list \<Rightarrow> responseUsage \<Rightarrow> responseUsage" where
  "recordStatus obj method args r =
     (if isResponseName obj \<and> method = PStr ''status''
      then (let statusCode = extractLiteralValue (firstArgument args)
            in if truthyPrimitive statusCode then r \<lparr> responseCodes := responseCodes r @ [statusCode] \<rparr> else r)
      else r)"

definition recordSend :: "node \<Rightarrow> primitive \<Rightarrow> node list \<Rightarrow> responseUsage \<Rightarrow> responseUsage" where
  "recordSend obj method args r =
     (if isResponseName obj \<and> method = PStr ''send'' \<and> firstArgument args \<noteq> Absent
      then (let structure = extractObjectStructure (firstArgument args)
            in r \<lparr> sendCalls := sendCalls r @ [structure] \<rparr>)
      else r)"

definition recordChain :: "node \<Rightarrow> primitive \<Rightarrow> node list \<Rightarrow> responseUsage \<Rightarrow> responseUsage" where
  "recordChain obj method args r =
     (case obj of
        CallExpression (MemberExpression obj2 prop2) args2 \<Rightarrow>
          if nodeName prop2 = PStr ''status'' \<and> method = PStr ''json''
          then (let statusCode = extractLiteralValue (firstArgument args2);
                    r = (if truthyPrimitive statusCode
                         then r \<lparr> responseCodes := responseCodes r @ [statusCode] \<rparr> else r);
                    structure = extractObjectStructure (firstArgument args)
                in r \<lparr> structures := structures r @ [withStatus statusCode structure] \<rparr>)
          else r
      | _ \<Rightarrow> r)"

definition analyzeCallExpression :: "node \<Rightarrow> functionAnalysis \<Rightarrow> functionAnalysis" where
  "analyzeCallExpression n analysis =
     (case n of
        CallExpression (MemberExpression obj prop) args \<Rightarrow>
          (let method = nodeName prop
           in analysis \<lparr> responseUsage :=
                recordChain obj method args
                  (recordSend obj method args
                    (recordStatus obj method args
                      (recordJson obj method args (responseUsage analysis)))) \<rparr>)
      | _ \<Rightarrow> analysis)"

text \<open>\<open>ASTAnalyzer._analyzeThrowStatement\<close> and \<open>_analyzeReturnStatement\<close>\<close>

definition analyzeThrowStatement :: "node \<Rightarrow> functionAnalysis \<Rightarrow> functionAnalysis" where
  "analyzeThrowStatement n analysis =
     (case n of
        ThrowStatement (NewExpression callee args) \<Rightarrow>
          if nodeName callee = PStr ''Error''
          then analysis \<lparr> thrown := thrown analysis @
                 [(PStr ''Error'', jsOr (extractLiteralValue (firstArgument args)) (PStr ''unknown''))] \<rparr>
          else analysis
      | ThrowStatement (Identifier s) \<Rightarrow>
          analysis \<lparr> thrown := thrown analysis @ [(PStr s, PStr ''unknown'')] \<rparr>
      | _ \<Rightarrow> analysis)"

definition analyzeReturnStatement :: "node \<Rightarrow> functionAnalysis \<Rightarrow> functionAnalysis" where
  "analyzeReturnStatement n analysis =
     (case n of
        ReturnStatement a \<Rightarrow>
          if a \<noteq> Absent
          then analysis \<lparr> returnValues := returnValues analysis @ [extractObjectStructure a] \<rparr>
          else analysis
      | _ \<Rightarrow> analysis)"

text \<open>The four visitors of \<open>_analyzeFunctionNode\<close>; a node has one type, so at most one
  of them acts on it.\<close>

definition visitNode :: "functionAnalysis \<Rightarrow> node \<Rightarrow> functionAnalysis" where
  "visitNode analysis n =
     analyzeReturnStatement n (analyzeThrowStatement n
       (analyzeCallExpression n (analyzeMemberExpression n analysis)))"

definition emptyAnalysis :: "primitive \<Rightarrow> bool \<Rightarrow> functionAnalysis" where
  "emptyAnalysis nm asy =
     \<lparr> functionName = nm, isAsync = asy,
       requestUsage = \<lparr> body = [], query = [], params = [], headers = [] \<rparr>,
       responseUsage = \<lparr> responseCodes = [], jsonCalls = [], sendCalls = [], structures = [] \<rparr>,
       thrown = [], returnValues = [] \<rparr>"

text \<open>\<open>node.id ? node.id.name : 'anonymous'\<close> and \<open>node.async || false\<close>\<close>

fun functionId :: "node \<Rightarrow> node" where
  "functionId (FunctionExpression asy fid ps b) = fid"
| "functionId (FunctionDeclaration asy fid ps b) = fid"
| "functionId n = Absent"

fun functionAsync :: "node \<Rightarrow> bool" where
  "functionAsync (ArrowFunctionExpression asy ps b) = asy"
| "functionAsync (FunctionExpression asy fid ps b) = asy"
| "functionAsync (FunctionDeclaration asy fid ps b) = asy"
| "functionAsync (ClassMethod asy key ps b) = asy"
| "functionAsync n = False"

text \<open>\<open>ASTAnalyzer._analyzeFunctionNode\<close>\<close>

definition analyzeFunctionNode :: "node \<Rightarrow> primitive \<Rightarrow> functionAnalysis" where
  "analyzeFunctionNode n customName =
     (let nm = jsOr customName
                 (if functionId n \<noteq> Absent then nodeName (functionId n) else PStr ''anonymous'')
      in foldl visitNode (emptyAnalysis nm (functionAsync n)) (descendants n))"

subsection \<open>The analysis of a source text\<close>

text \<open>The result of \<open>analyzeCode\<close>; \<open>analysed\<close> is its field \<open>functions\<close> and \<open>parseErrors\<close>
  its field \<open>errors\<close>.  The lists of imports and exports are not modelled.\<close>

record fileAnalysis =
  fileName :: string
  analysed :: "functionAnalysis list"
  parseErrors :: "string list"

text \<open>The visitors of \<open>analyzeCode\<close> that collect functions.\<close>

fun isFunctionValue :: "node \<Rightarrow> bool" where
  "isFunctionValue (ArrowFunctionExpression asy ps b) = True"
| "isFunctionValue (FunctionExpression asy fid ps b) = True"
| "isFunctionValue n = False"

fun functionsAt :: "node \<Rightarrow> functionAnalysis list" where
  "functionsAt (FunctionDeclaration asy fid ps b) =
     [analyzeFunctionNode (FunctionDeclaration asy fid ps b) PUndefined]"
| "functionsAt (VariableDeclarator vid ini) =
     (if isFunctionValue ini then [analyzeFunctionNode ini (nodeName vid)] else [])"
| "functionsAt (ClassMethod asy key ps b) =
     [analyzeFunctionNode (ClassMethod asy key ps b) PUndefined]"
| "functionsAt n = []"

text \<open>
  \<open>ASTAnalyzer.analyzeCode\<close>.  Its first argument is what the parser makes of the
  source text: the message of the error it throws, or the root of the syntax tree.
\<close>

definition analyzeCode :: "string + node \<Rightarrow> string \<Rightarrow> fileAnalysis" where
  "analyzeCode parsed file =
     (case parsed of
        Inr ast \<Rightarrow> \<lparr> fileName = file, analysed = concat (map functionsAt (descendants ast)),
                     parseErrors = [] \<rparr>
      | Inl message \<Rightarrow> \<lparr> fileName = file, analysed = [], parseErrors = [message] \<rparr>)"

text \<open>
  The syntax tree of
  \<open>const f = (req,res) => { const {a,b} = req.body; res.json({x:1}); }\<close>.
\<close>

definition destructuringHandler :: node where
  "destructuringHandler =
     Other ''File'' [Other ''Program'' [Other ''VariableDeclaration''
       [VariableDeclarator (Identifier ''f'')
         (ArrowFunctionExpression False [Identifier ''req'', Identifier ''res'']
           (Other ''BlockStatement''
             [Other ''VariableDeclaration''
                [VariableDeclarator
                   (Other ''ObjectPattern''
                      [ObjectProperty (Identifier ''a'') (Identifier ''a''),
                       ObjectProperty (Identifier ''b'') (Identifier ''b'')])
                   (MemberExpression (Identifier ''req'') (Identifier ''body''))],
              Other ''ExpressionStatement''
                [CallExpression (MemberExpression (Identifier ''res'') (Identifier ''json''))
                   [ObjectExpression [ObjectProperty (Identifier ''x'') (NumericLiteral 1)]]]]))]]]"


section \<open>Documentation assembly (DocumentationBuilder)\<close>

text \<open>
  A route as the reflector emits it.  The fields that a documentation record also has
  carry the prefix \<open>route\<close> here (\<open>routeMethod\<close> is the source field \<open>method\<close>, and so
  on); \<open>functionSource\<close> is absent for a handler whose text cannot be read.
\<close>

record route =
  routeMethod :: string
  routePath :: string
  routeHandlerName :: string
  routeHandlerType :: string
  routeMiddleware :: "string list"
  routeParameters :: "string list"
  functionSource :: "string option"
  routeIsAsync :: bool
  parameterCount :: nat

definition pathParameter :: "primitive \<Rightarrow> parameterDescriptor" where
  "pathParameter field =
     \<lparr> name = field, location = ''path'', paramType = ''string'', required = True,
       description = Some (''Path parameter: '' @ toStr field) \<rparr>"

definition bodyParameter :: "primitive \<Rightarrow> parameterDescriptor" where
  "bodyParameter field =
     \<lparr> name = field, location = ''body'', paramType = ''unknown'', required = False,
       description = Some (''Body parameter: '' @ toStr field) \<rparr>"

definition queryParameter :: "primitive \<Rightarrow> parameterDescriptor" where
  "queryParameter field =
     \<lparr> name = field, location = ''query'', paramType = ''string'', required = False,
       description = Some (''Query parameter: '' @ toStr field) \<rparr>"

definition headerParameter :: "primitive \<Rightarrow> parameterDescriptor" where
  "headerParameter field =
     \<lparr> name = field, location = ''header'', paramType = ''string'', required = False,
       description = Some (''Header: '' @ toStr field) \<rparr>"

definition notAll :: "primitive \<Rightarrow> bool" where
  "notAll f \<longleftrightarrow> f \<noteq> PStr ''__ALL__''"

text \<open>The body of \<open>paramFields.forEach\<close>: a path parameter is added unless the
  documentation already has one of that name.\<close>

definition addPathField :: "documentation \<Rightarrow> primitive \<Rightarrow> documentation" where
  "addPathField doc field =
     (if list_ex (\<lambda>p. name p = field \<and> location p = ''path'') (parameters doc) then doc
      else doc \<lparr> parameters := parameters doc @ [pathParameter field] \<rparr>)"

text \<open>\<open>DocumentationBuilder._extractRequestParameters\<close>\<close>

definition extractRequestParameters :: "functionAnalysis \<Rightarrow> documentation \<Rightarrow> documentation" where
  "extractRequestParameters analysis doc =
    (let u = requestUsage analysis;
         bodyFields = filter notAll (body u);
         doc = doc \<lparr> parameters := parameters doc @ map bodyParameter bodyFields \<rparr>;
         doc = (if length bodyFields = 0 \<and> PStr ''__ALL__'' \<in> set (body u)
                then doc \<lparr> requestSchema :=
                       JObj [(''type'', JStr ''object''),
                             (''description'', JStr ''Request body (structure not auto-detected)'')] \<rparr>
                else doc);
         doc = doc \<lparr> parameters := parameters doc @ map queryParameter (filter notAll (query u)) \<rparr>;
         doc = foldl addPathField doc (filter notAll (params u));
         doc = doc \<lparr> parameters := parameters doc @ map headerParameter (filter notAll (headers u)) \<rparr>
     in doc)"

text \<open>\<open>typeof\<close>, \<open>Object.entries\<close> and \<open>DocumentationBuilder._convertToSchemaProperties\<close>.\<close>

fun typeOf :: "jsval \<Rightarrow> string" where
  "typeOf JUndefined = ''undefined''"
| "typeOf (JBool b) = ''boolean''"
| "typeOf (JNum n) = ''number''"
| "typeOf (JStr s) = ''string''"
| "typeOf v = ''object''"

text \<open>A run of assignments \<open>obj[k] = v\<close>, and the spread \<open>{...obj, ...other}\<close>, which
  defines the properties of \<open>other\<close> whatever their keys.\<close>

definition assignAll :: "(string \<times> jsval) list \<Rightarrow> (string \<times> jsval) list \<Rightarrow> (string \<times> jsval) list" where
  "assignAll obj entries = foldl (\<lambda>acc (k, v). assignProp k v acc) obj entries"

definition spreadAll :: "(string \<times> jsval) list \<Rightarrow> (string \<times> jsval) list \<Rightarrow> (string \<times> jsval) list" where
  "spreadAll obj entries = foldl (\<lambda>acc (k, v). defineProp k v acc) obj entries"

definition propertySchema :: "jsval \<Rightarrow> jsval \<Rightarrow> jsval" where
  "propertySchema v nested =
     (case v of
        JStr s \<Rightarrow>
          if prefix ''var:'' s
          then JObj [(''type'', JStr ''unknown''), (''description'', JStr (''Variable: '' @ drop 4 s))]
          else if s = ''template_string''
          then JObj [(''type'', JStr ''string''), (''description'', JStr ''Template string'')]
          else if s = ''complex_expression''
          then JObj [(''type'', JStr ''unknown''), (''description'', JStr ''Complex expression'')]
          else JObj [(''type'', JStr ''string''), (''example'', v)]
      | JArr xs \<Rightarrow> JObj [(''type'', JStr ''array''), (''items'', JObj [])]
      | JObj kvs \<Rightarrow> JObj [(''type'', JStr ''object''), (''properties'', nested)]
      | JNull \<Rightarrow> JObj [(''type'', JStr ''object''), (''properties'', nested)]
      | _ \<Rightarrow> JObj [(''type'', JStr (typeOf v)), (''example'', v)])"

fun convertToSchemaProperties :: "jsval \<Rightarrow> jsval" where
  "convertToSchemaProperties (JObj kvs) =
     JObj (assignAll []
       (map (\<lambda>(k, v). (k, propertySchema v (convertToSchemaProperties v)))
          (filter (\<lambda>(k, v). k \<noteq> ''status'') kvs)))"
| "convertToSchemaProperties (JArr xs) =
     JObj (assignAll []
       (zip (map natToString [0..<length xs])
          (map (\<lambda>v. propertySchema v (convertToSchemaProperties v)) xs)))"
| "convertToSchemaProperties v = JObj []"

text \<open>\<open>DocumentationBuilder._extractResponseStructure\<close>\<close>

definition extractResponseStructure :: "functionAnalysis \<Rightarrow> documentation \<Rightarrow> documentation" where
  "extractResponseStructure analysis doc =
    (let doc = (case structures (responseUsage analysis) of
                  [] \<Rightarrow> doc
                | primaryStructure # rest \<Rightarrow>
                    doc \<lparr> responseSchema :=
                            JObj [(''type'', JStr ''object''),
                                  (''properties'', convertToSchemaProperties primaryStructure),
                                  (''example'', primaryStructure)],
                          exampleResponse := Some primaryStructure \<rparr>);
         doc = (case returnValues analysis of
                  [] \<Rightarrow> doc
                | returnValue # rest \<Rightarrow>
                    if \<not> truthy (responseSchema doc)
                    then doc \<lparr> responseSchema :=
                             JObj [(''type'', JStr (typeOf returnValue)), (''example'', returnValue)] \<rparr>
                    else doc)
     in doc)"

text \<open>
  \<open>DocumentationBuilder._routeToSchemaName\<close>: the replacements \<open>/^\/api\//\<close>, \<open>/^\//\<close>,
  \<open>/\//g\<close>, \<open>/:(\w+)/g\<close> and \<open>/\.$/\<close>, then the lower-cased method.
\<close>

definition dropPrefix :: "string \<Rightarrow> string \<Rightarrow> string" where
  "dropPrefix pat s = (if prefix pat s then drop (length pat) s else s)"

fun dropParameterColons :: "string \<Rightarrow> string" where
  "dropParameterColons [] = []"
| "dropParameterColons (c # cs) =
     (if c = colon \<and> cs \<noteq> [] \<and> identChar (hd cs) then dropParameterColons cs
      else c # dropParameterColons cs)"

definition toLowerCase :: "string \<Rightarrow> string" where
  "toLowerCase s =
     map (\<lambda>c. case map_of (zip ''ABCDEFGHIJKLMNOPQRSTUVWXYZ'' ''abcdefghijklmnopqrstuvwxyz'') c of
                 Some l \<Rightarrow> l | None \<Rightarrow> c) s"

definition routeToSchemaName :: "string \<Rightarrow> string \<Rightarrow> string" where
  "routeToSchemaName m p =
     (let s = dropPrefix ''/api/'' p;
          s = dropPrefix ''/'' s;
          s = map (\<lambda>c. if c = slash then CHR ''.'' else c) s;
          s = dropParameterColons s;
          s = (if s \<noteq> [] \<and> last s = CHR ''.'' then butlast s else s)
      in s @ ''.'' @ toLowerCase m)"

text \<open>
  \<open>DocumentationBuilder._loadSchemas\<close>.  The file system is the function \<open>readSchema\<close>:
  for a directory (\<open>request\<close> or \<open>response\<close>) and a schema name it gives the path and the
  parsed content of the schema file, a JSON object, or nothing when there is no
  readable file.
\<close>

definition loadSchemas ::
  "(string \<Rightarrow> string \<Rightarrow> (string \<times> (string \<times> jsval) list) option) \<Rightarrow> documentation \<Rightarrow> documentation" where
  "loadSchemas readSchema doc =
    (let routeName = routeToSchemaName (httpMethod doc) (path doc);
         doc = (case readSchema ''request'' routeName of
                  Some (file, schema) \<Rightarrow>
                    doc \<lparr> requestSchema := JObj (assignProp ''schemaFile'' (JStr file) schema) \<rparr>
                | None \<Rightarrow> doc);
         doc = (case readSchema ''response'' routeName of
                  Some (file, parsedSchema) \<Rightarrow>
                    doc \<lparr> responseSchema := JObj (assignProp ''schemaFile'' (JStr file)
                            (if truthy (responseSchema doc)
                             then spreadAll (ownProperties (responseSchema doc)) parsedSchema
                             else parsedSchema)) \<rparr>
                | None \<Rightarrow> doc)
     in doc)"

text \<open>
  \<open>DocumentationBuilder._buildRouteDocumentation\<close>.  \<open>parse\<close> is the parser library:
  it gives the syntax tree of a source text or the message of its error.
\<close>

definition buildRouteDocumentation ::
  "(string \<Rightarrow> string + node) \<Rightarrow>
   (string \<Rightarrow> string \<Rightarrow> (string \<times> (string \<times> jsval) list) option) \<Rightarrow> route \<Rightarrow> documentation" where
  "buildRouteDocumentation parse readSchema r =
    (let doc = \<lparr> httpMethod = routeMethod r, path = routePath r,
                  handlerName = routeHandlerName r, handlerType = routeHandlerType r,
                  middleware = routeMiddleware r, parameters = [], requestSchema = JNull,
                  responseSchema = JNull, statusCodes = [], exampleResponse = None,
                  metadata = Built (routeIsAsync r) (parameterCount r),
                  breakingChange = False, breakingChangeDescription = None \<rparr>;
         doc = doc \<lparr> parameters := parameters doc @
                        map (\<lambda>param. pathParameter (PStr param)) (routeParameters r) \<rparr>;
         doc = (case functionSource r of
                  None \<Rightarrow> doc
                | Some source \<Rightarrow>
                    if source = [] then doc
                    else (case analysed (analyzeCode (parse source) (routeHandlerName r)) of
                            [] \<Rightarrow> doc
                          | functionAnalysis # rest \<Rightarrow>
                              (let doc = extractRequestParameters functionAnalysis doc;
                                   doc = extractResponseStructure functionAnalysis doc;
                                   codes = responseCodes (responseUsage functionAnalysis)
                               in if length codes > 0
                                  then doc \<lparr> statusCodes := newSet codes \<rparr> else doc)))
     in loadSchemas readSchema doc)"

text \<open>\<open>DocumentationBuilder._createMinimalDoc\<close>\<close>

definition createMinimalDoc :: "route \<Rightarrow> string \<Rightarrow> documentation" where
  "createMinimalDoc r message =
     \<lparr> httpMethod = routeMethod r, path = routePath r,
       handlerName = routeHandlerName r, handlerType = routeHandlerType r,
       middleware = routeMiddleware r,
       parameters = map (\<lambda>param. \<lparr> name = PStr param, location = ''path'',
                                    paramType = ''string'', required = True,
                                    description = None \<rparr>) (routeParameters r),
       requestSchema = JNull, responseSchema = JNull, statusCodes = [],
       exampleResponse = None, metadata = Partial message,
       breakingChange = False, breakingChangeDescription = None \<rparr>"

text \<open>
  The body of the loop of \<open>buildDocumentation\<close>: the documentation of a route is the
  built one, or the minimal one when an exception escapes the build; \<open>failure\<close> is the
  message of that exception, if there is one.
\<close>

definition documentRoute ::
  "(string \<Rightarrow> string + node) \<Rightarrow>
   (string \<Rightarrow> string \<Rightarrow> (string \<times> (string \<times> jsval) list) option) \<Rightarrow>
   string option \<Rightarrow> route \<Rightarrow> documentation" where
  "documentRoute parse readSchema failure r =
     (case failure of
        None \<Rightarrow> buildRouteDocumentation parse readSchema r
      | Some message \<Rightarrow> createMinimalDoc r message)"

text \<open>What a parameter says about its name, its location and whether it is required.\<close>

definition parameterKind :: "parameterDescriptor \<Rightarrow> primitive \<times> string \<times> bool" where
  "parameterKind p = (name p, location p, required p)"

text \<open>A route for the path \<open>/users/:id/posts/:postId\<close> whose handler source is
  \<open>source\<close>.\<close>

definition postsRoute :: "string option \<Rightarrow> route" where
  "postsRoute source =
     \<lparr> routeMethod = ''GET'', routePath = ''/users/:id/posts/:postId'',
       routeHandlerName = ''getPost'', routeHandlerType = ''function'', routeMiddleware = [],
       routeParameters = extractPathParameters ''/users/:id/posts/:postId'',
       functionSource = source, routeIsAsync = False, parameterCount = 2 \<rparr>"

section \<open>Version numbers (SemanticVersionManager)\<close>

text \<open>\<open>currentVersion.replace(/^v/, '')\<close>\<close>

definition stripLeadingV :: "string \<Rightarrow> string" where
  "stripLeadingV s = (case s of [] \<Rightarrow> [] | c # cs \<Rightarrow> if c = CHR ''v'' then cs else s)"

text \<open>
  \<open>SemanticVersionManager.bumpVersion\<close>.  \<open>inc\<close> is the function \<open>semver.inc\<close> of the
  package \<open>semver\<close>, whose result is a version or \<open>null\<close> (here \<open>None\<close>).
\<close>

definition bumpVersion :: "(string \<Rightarrow> string \<Rightarrow> string option) \<Rightarrow> string \<Rightarrow> string \<Rightarrow> string option" where
  "bumpVersion inc currentVersion bump =
     (let cleanVersion = stripLeadingV currentVersion;
          newVersion = inc cleanVersion bump
      in newVersion)"

text \<open>
  Modelled from the spec: \<open>semver.inc\<close> and the version parser behind it, which belong
  to the package \<open>semver\<close> and are not part of the sources.  The spec gives the
  increment of a version \<open>MAJOR.MINOR.PATCH\<close>: a major bump increments MAJOR and resets
  MINOR and PATCH to 0, a minor bump increments MINOR and resets PATCH to 0, a patch
  bump increments PATCH only.  A version that does not parse has no increment.
\<close>

fun splitOn :: "char \<Rightarrow> string \<Rightarrow> string list" where
  "splitOn sep [] = [[]]"
| "splitOn sep (c # cs) =
     (if c = sep then [] # splitOn sep cs
      else (case splitOn sep cs of [] \<Rightarrow> [[c]] | w # ws \<Rightarrow> (c # w) # ws))"

definition parseVersion :: "string \<Rightarrow> (nat \<times> nat \<times> nat) option" where
  "parseVersion s =
     (case splitOn (CHR ''.'') s of
        [a, b, c] \<Rightarrow>
          if isNumber a \<and> isNumber b \<and> isNumber c
          then Some (numberValue a, numberValue b, numberValue c) else None
      | _ \<Rightarrow> None)"

definition showVersion :: "nat \<Rightarrow> nat \<Rightarrow> nat \<Rightarrow> string" where
  "showVersion major minor patch =
     natToString major @ ''.'' @ natToString minor @ ''.'' @ natToString patch"

definition semverInc :: "string \<Rightarrow> string \<Rightarrow> string option" where
  "semverInc version bump =
     (case parseVersion version of
        None \<Rightarrow> None
      | Some (major, minor, patch) \<Rightarrow>
          if bump = ''major'' then Some (showVersion (major + 1) 0 0)
          else if bump = ''minor'' then Some (showVersion major (minor + 1) 0)
          else if bump = ''patch'' then Some (showVersion major minor (patch + 1))
          else None)"


section \<open>Properties of path normalisation\<close>

subsection \<open>Parameter extraction\<close>

lemma identChar_not_colon: "identChar c \<Longrightarrow> c \<noteq> colon"
  by (auto simp: identChar_def identStart_def colon_def)

lemma identChar_not_slash: "identChar c \<Longrightarrow> c \<noteq> slash"
  by (auto simp: identChar_def identStart_def slash_def)

lemma tokenAt_ident: "identChar c \<Longrightarrow> tokenAt (c # cs) = []"
  by (auto simp: tokenAt_def identChar_not_colon split: list.splits)

lemma tokenAt_slash: "tokenAt (slash # cs) = []"
  by (auto simp: tokenAt_def slash_def colon_def split: list.splits)

lemma colonTokens_dropWhile: "colonTokens (dropWhile identChar cs) = colonTokens cs"
  by (induction cs) (auto simp: tokenAt_ident)

text \<open>Skipping over a matched name loses no token: the scanning loop finds the token
  of every position.\<close>

lemma extract_eq_tokens: "extractPathParameters s = colonTokens s"
proof (induction s rule: extractPathParameters.induct)
  case 1
  show ?case by simp
next
  case (2 c cs)
  show ?case
  proof (cases "c = colon \<and> cs \<noteq> [] \<and> identStart (hd cs)")
    case True
    then obtain d r where cs: "cs = d # r" by (cases cs) auto
    with True have "tokenAt (c # cs) = [takeWhile identChar cs]"
      by (simp add: tokenAt_def)
    moreover have "extractPathParameters (dropWhile identChar cs) = colonTokens cs"
      using 2(1) True colonTokens_dropWhile by simp
    ultimately show ?thesis using True by simp
  next
    case False
    then have "tokenAt (c # cs) = []"
      by (auto simp: tokenAt_def split: list.splits)
    with False 2(2) show ?thesis by auto
  qed
qed

subsection \<open>Slash collapsing and the leading slash\<close>

lemma collapse_hd: "\<exists>r'. collapseSlashes (d # r) = d # r'"
  by (induction "d # r" arbitrary: d r rule: collapseSlashes.induct) auto

lemma set_collapseSlashes: "set (collapseSlashes s) = set s"
  by (induction s rule: collapseSlashes.induct) auto

lemma takeWhile_collapse: "takeWhile identChar (collapseSlashes s) = takeWhile identChar s"
  by (induction s rule: collapseSlashes.induct) (auto simp: identChar_not_slash)

lemma tokenAt_collapse: "c \<noteq> slash \<Longrightarrow> tokenAt (c # collapseSlashes cs) = tokenAt (c # cs)"
proof (cases cs)
  case Nil
  then show ?thesis by simp
next
  case (Cons d r)
  obtain r' where r': "collapseSlashes (d # r) = d # r'"
    using collapse_hd by blast
  have "takeWhile identChar (d # r') = takeWhile identChar (d # r)"
    using takeWhile_collapse[of "d # r"] r' by simp
  then show ?thesis using Cons r' by (simp add: tokenAt_def)
qed

lemma colonTokens_collapse: "colonTokens (collapseSlashes s) = colonTokens s"
proof (induction s rule: collapseSlashes.induct)
  case 1
  show ?case by simp
next
  case (2 c)
  show ?case by simp
next
  case (3 c d cs)
  show ?case
  proof (cases "c = slash")
    case True
    then show ?thesis using 3 by (auto simp: tokenAt_slash)
  next
    case False
    then show ?thesis using 3 tokenAt_collapse[of c "d # cs"] by simp
  qed
qed

lemma colonTokens_lead: "colonTokens (ensureLeadingSlash s) = colonTokens s"
  by (auto simp: ensureLeadingSlash_def tokenAt_slash split: list.splits)

lemma stripArtifacts_Nil: "stripArtifacts [] = []"
  by (simp add: stripArtifacts_def removeEndDollar_def replaceCaretSlash_def
      removeLookahead_def removeBackslashes_def)

lemma collapseSlashes_idem: "collapseSlashes (collapseSlashes s) = collapseSlashes s"
proof (induction s rule: collapseSlashes.induct)
  case 1
  show ?case by simp
next
  case (2 c)
  show ?case by simp
next
  case (3 c d cs)
  obtain r' where r': "collapseSlashes (d # cs) = d # r'"
    using collapse_hd by blast
  show ?case
  proof (cases "c = slash \<and> d = slash")
    case True
    with 3 show ?thesis by simp
  next
    case False
    then have "collapseSlashes (c # d # cs) = c # d # r'"
      using r' by auto
    moreover have "collapseSlashes (c # d # r') = c # collapseSlashes (d # r')"
      using False by auto
    moreover have "collapseSlashes (d # r') = d # r'"
      using 3(2) False r' by auto
    ultimately show ?thesis by simp
  qed
qed

lemma collapse_lead:
  "collapseSlashes (ensureLeadingSlash (collapseSlashes s)) = ensureLeadingSlash (collapseSlashes s)"
proof (cases "collapseSlashes s")
  case Nil
  then show ?thesis by (simp add: ensureLeadingSlash_def)
next
  case (Cons c cs)
  have idem: "collapseSlashes (c # cs) = c # cs"
    using collapseSlashes_idem[of s] Cons by simp
  show ?thesis
    using Cons idem by (cases "c = slash") (simp_all add: ensureLeadingSlash_def)
qed

lemma lead_lead: "ensureLeadingSlash (ensureLeadingSlash s) = ensureLeadingSlash s"
  by (auto simp: ensureLeadingSlash_def split: list.splits)

lemma lead_nonempty: "ensureLeadingSlash s \<noteq> []"
  by (auto simp: ensureLeadingSlash_def split: list.splits)

lemma set_lead: "set (ensureLeadingSlash s) \<subseteq> insert slash (set s)"
  by (auto simp: ensureLeadingSlash_def split: list.splits if_splits)

subsection \<open>Paths without regular-expression artifacts\<close>

lemma replaceLit_absent: "\<exists>c\<in>set pat. c \<notin> set s \<Longrightarrow> replaceLit pat rep s = s"
proof (induction pat rep s rule: replaceLit.induct)
  case (1 pat rep)
  show ?case by simp
next
  case (2 pat rep c cs)
  from 2(3) obtain x where x: "x \<in> set pat" "x \<notin> set (c # cs)"
    by blast
  have np: "\<not> prefix pat (c # cs)"
  proof
    assume "prefix pat (c # cs)"
    then have "set pat \<subseteq> set (c # cs)" by (rule set_mono_prefix)
    with x show False by blast
  qed
  have "\<exists>c\<in>set pat. c \<notin> set cs"
    using x by auto
  with 2(2) np have "replaceLit pat rep cs = cs" by simp
  with np show ?case by simp
qed

lemma removeBackslashes_id: "backslash \<notin> set s \<Longrightarrow> removeBackslashes s = s"
  by (induction s) (auto simp: removeBackslashes_def)

lemma stripArtifacts_no_anchor:
  assumes "caret \<notin> set s" "dollar \<notin> set s"
  shows "stripArtifacts s = removeBackslashes s"
proof -
  let ?q = "removeBackslashes s"
  have c: "caret \<notin> set ?q" and d: "dollar \<notin> set ?q"
    using assms by (auto simp: removeBackslashes_def)
  have 1: "removeLookahead ?q = ?q"
    unfolding removeLookahead_def
    by (rule replaceLit_absent) (use d in \<open>auto simp: lookaheadArtifact_def\<close>)
  have 2: "replaceCaretSlash ?q = ?q"
    unfolding replaceCaretSlash_def
    by (rule replaceLit_absent) (use c in auto)
  have 3: "removeEndDollar ?q = ?q"
    using d by (cases ?q rule: rev_cases) (auto simp: removeEndDollar_def)
  show ?thesis by (simp add: stripArtifacts_def 1 2 3)
qed

subsection \<open>Length and shape of a cleaned path\<close>

lemma replaceLit_length:
  "length rep \<le> length pat \<Longrightarrow> length (replaceLit pat rep s) \<le> length s"
proof (induction pat rep s rule: replaceLit.induct)
  case (1 pat rep)
  show ?case by simp
next
  case (2 pat rep c cs)
  show ?case
  proof (cases "pat \<noteq> [] \<and> prefix pat (c # cs)")
    case True
    then have le: "length pat \<le> length (c # cs)" by (auto dest: prefix_length_le)
    have "length (replaceLit pat rep (drop (length pat) (c # cs))) \<le> length (c # cs) - length pat"
      using 2(1)[OF True 2(3)] by simp
    then show ?thesis using True le 2(3) by simp
  next
    case False
    then show ?thesis using 2(2)[OF False 2(3)] by auto
  qed
qed

lemma replaceLit_shorter:
  "length rep < length pat \<Longrightarrow> replaceLit pat rep s \<noteq> s \<Longrightarrow> length (replaceLit pat rep s) < length s"
proof (induction pat rep s rule: replaceLit.induct)
  case (1 pat rep)
  then show ?case by simp
next
  case (2 pat rep c cs)
  show ?case
  proof (cases "pat \<noteq> [] \<and> prefix pat (c # cs)")
    case True
    then have le: "length pat \<le> length (c # cs)" by (auto dest: prefix_length_le)
    have "length (replaceLit pat rep (drop (length pat) (c # cs))) \<le> length (c # cs) - length pat"
      using replaceLit_length[of rep pat "drop (length pat) (c # cs)"] 2(3) by simp
    then show ?thesis using True le 2(3) by simp
  next
    case False
    then have "replaceLit pat rep cs \<noteq> cs" using 2(4) by auto
    then show ?thesis using 2(2)[OF False 2(3)] False by auto
  qed
qed

lemma removeBackslashes_shorter:
  "removeBackslashes s \<noteq> s \<Longrightarrow> length (removeBackslashes s) < length s"
proof -
  assume "removeBackslashes s \<noteq> s"
  then have "\<exists>x\<in>set s. \<not> x \<noteq> backslash"
    unfolding removeBackslashes_def filter_id_conv by blast
  then obtain x where "x \<in> set s" "\<not> x \<noteq> backslash"
    by blast
  then show ?thesis
    unfolding removeBackslashes_def by (rule length_filter_less)
qed

lemma removeEndDollar_shorter:
  "removeEndDollar s \<noteq> s \<Longrightarrow> length (removeEndDollar s) < length s"
  by (auto simp: removeEndDollar_def split: if_splits)

lemma stripArtifacts_shorter:
  assumes "stripArtifacts s \<noteq> s"
  shows "length (stripArtifacts s) < length s"
proof -
  let ?a = "removeBackslashes s"
  let ?b = "removeLookahead ?a"
  let ?c = "replaceCaretSlash ?b"
  let ?d = "removeEndDollar ?c"
  have la: "length ?a \<le> length s" by (simp add: removeBackslashes_def)
  have lb: "length ?b \<le> length ?a"
    unfolding removeLookahead_def by (rule replaceLit_length) simp
  have lc: "length ?c \<le> length ?b"
    unfolding replaceCaretSlash_def by (rule replaceLit_length) simp
  have ld: "length ?d \<le> length ?c" by (simp add: removeEndDollar_def)
  have d: "stripArtifacts s = ?d" by (simp add: stripArtifacts_def)
  have nall: "\<not> (?a = s \<and> ?b = ?a \<and> ?c = ?b \<and> ?d = ?c)"
  proof
    assume all: "?a = s \<and> ?b = ?a \<and> ?c = ?b \<and> ?d = ?c"
    have "?d = ?c" using all by blast
    also have "\<dots> = ?b" using all by blast
    also have "\<dots> = ?a" using all by blast
    also have "\<dots> = s" using all by blast
    finally show False using assms d by simp
  qed
  consider "?a \<noteq> s" | "?b \<noteq> ?a" | "?c \<noteq> ?b" | "?d \<noteq> ?c"
    using nall by blast
  then have "length ?d < length s"
  proof cases
    case 1
    then have "length ?a < length s" by (rule removeBackslashes_shorter)
    with lb lc ld show ?thesis by linarith
  next
    case 2
    then have "length ?b < length ?a"
      unfolding removeLookahead_def
      by (intro replaceLit_shorter) (simp_all add: lookaheadArtifact_def)
    with la lc ld show ?thesis by linarith
  next
    case 3
    then have "length ?c < length ?b"
      unfolding replaceCaretSlash_def
      by (intro replaceLit_shorter) simp_all
    with la lb ld show ?thesis by linarith
  next
    case 4
    then have "length ?d < length ?c" by (rule removeEndDollar_shorter)
    with la lb lc show ?thesis by linarith
  qed
  with d show ?thesis by simp
qed

lemma stripArtifacts_keeps_slash: "\<exists>r'. stripArtifacts (slash # r) = slash # r'"
proof -
  have a: "removeBackslashes (slash # r) = slash # removeBackslashes r"
    by (simp add: removeBackslashes_def slash_def backslash_def)
  have b: "removeLookahead (slash # x) = slash # removeLookahead x" for x
    by (simp add: removeLookahead_def lookaheadArtifact_def slash_def)
  have c: "replaceCaretSlash (slash # x) = slash # replaceCaretSlash x" for x
    by (simp add: replaceCaretSlash_def slash_def caret_def)
  have d: "\<exists>r'. removeEndDollar (slash # x) = slash # r'" for x
    by (cases x rule: rev_cases) (auto simp: removeEndDollar_def slash_def dollar_def)
  show ?thesis
    using d by (simp add: stripArtifacts_def a b c)
qed

lemma collapseSlashes_length: "length (collapseSlashes s) \<le> length s"
  by (induction s rule: collapseSlashes.induct) auto

text \<open>What \<open>_cleanPath\<close> does guarantee: its result starts with a separator and holds
  no two separators in a row.\<close>

lemma cleanPath_form: "\<exists>x. cleanPath p = ensureLeadingSlash (collapseSlashes x)"
proof (cases "p = []")
  case True
  have "cleanPath p = ensureLeadingSlash (collapseSlashes [])"
    using True by (simp add: cleanPath_def ensureLeadingSlash_def)
  then show ?thesis by blast
next
  case False
  then show ?thesis by (auto simp: cleanPath_def)
qed

lemma cleanPath_leading: "\<exists>r. cleanPath p = slash # r"
proof -
  obtain x where "cleanPath p = ensureLeadingSlash (collapseSlashes x)"
    using cleanPath_form by blast
  then show ?thesis
    by (auto simp: ensureLeadingSlash_def split: list.splits)
qed

lemma cleanPath_collapsed: "collapseSlashes (cleanPath p) = cleanPath p"
  using cleanPath_form[of p] collapse_lead by auto

lemma cleanPath_stable:
  assumes "stripArtifacts (cleanPath p) = cleanPath p"
  shows "cleanPath (cleanPath p) = cleanPath p"
proof -
  obtain r where r: "cleanPath p = slash # r" using cleanPath_leading by blast
  have "cleanPath (cleanPath p) = ensureLeadingSlash (collapseSlashes (stripArtifacts (cleanPath p)))"
    using r by (simp add: cleanPath_def)
  also have "\<dots> = ensureLeadingSlash (cleanPath p)"
    using assms by (simp add: cleanPath_collapsed)
  also have "\<dots> = cleanPath p"
    using r by (simp add: ensureLeadingSlash_def)
  finally show ?thesis .
qed

lemma cleanPath_unstable:
  assumes "stripArtifacts (cleanPath p) \<noteq> cleanPath p"
  shows "cleanPath (cleanPath p) \<noteq> cleanPath p"
proof -
  obtain r where r: "cleanPath p = slash # r" using cleanPath_leading by blast
  obtain r' where r': "stripArtifacts (cleanPath p) = slash # r'"
    using stripArtifacts_keeps_slash[of r] r by auto
  obtain r'' where r'': "collapseSlashes (slash # r') = slash # r''"
    using collapse_hd by blast
  have "cleanPath (cleanPath p) = ensureLeadingSlash (collapseSlashes (stripArtifacts (cleanPath p)))"
    using r by (simp add: cleanPath_def)
  also have "\<dots> = collapseSlashes (stripArtifacts (cleanPath p))"
    using r' r'' by (simp add: ensureLeadingSlash_def)
  finally have "length (cleanPath (cleanPath p)) \<le> length (stripArtifacts (cleanPath p))"
    by (simp add: collapseSlashes_length)
  moreover have "length (stripArtifacts (cleanPath p)) < length (cleanPath p)"
    using assms by (rule stripArtifacts_shorter)
  ultimately show ?thesis by auto
qed

lemmas path_eval =
  cleanPath_def stripArtifacts_def removeEndDollar_def replaceCaretSlash_def
  removeLookahead_def removeBackslashes_def lookaheadArtifact_def ensureLeadingSlash_def
  slash_def caret_def dollar_def backslash_def colon_def identStart_def identChar_def

subsection \<open>The claims about paths\<close>

text \<open>
  C2.  The claim that \<open>extractParameters(clean(p))\<close> never holds a name twice fails: the
  loop of \<open>_extractPathParameters\<close> pushes every match and nothing removes duplicates.
\<close>

theorem extractPathParameters_duplicates_counterexample:
  "\<not> distinct (extractPathParameters (cleanPath ''/a/:id/b/:id''))"
  by (simp add: path_eval)

text \<open>
  C2, as amended.  For every path \<open>p\<close>, \<open>extractParameters(clean(p))\<close> is the list of the
  \<open>:name\<close> tokens of \<open>p\<close> once the regular-expression artifacts are stripped from it, in
  left-to-right order and with one entry per occurrence; for a path that holds no
  artifact these are the tokens of \<open>p\<close> itself.  Collapsing slashes and adding the
  leading slash change no token.
\<close>

theorem extractPathParameters_cleanPath:
  "extractPathParameters (cleanPath p) = colonTokens (stripArtifacts p) \<and>
   (stripArtifacts p = p \<longrightarrow> extractPathParameters (cleanPath p) = colonTokens p)"
  by (simp add: extract_eq_tokens cleanPath_def colonTokens_lead colonTokens_collapse
      stripArtifacts_Nil tokenAt_def)

theorem extractPathParameters_cleanPath_witness:
  "stripArtifacts ''users//:id/posts/:id'' = ''users//:id/posts/:id'' \<and>
   extractPathParameters (cleanPath ''users//:id/posts/:id'') = colonTokens ''users//:id/posts/:id'' \<and>
   colonTokens ''users//:id/posts/:id'' = [''id'', ''id'']"
proof -
  have s: "stripArtifacts ''users//:id/posts/:id'' = ''users//:id/posts/:id''"
    by (simp add: path_eval)
  have t: "colonTokens ''users//:id/posts/:id'' = [''id'', ''id'']"
    by (simp add: tokenAt_def path_eval)
  from extractPathParameters_cleanPath[of "''users//:id/posts/:id''"] s
  have "extractPathParameters (cleanPath ''users//:id/posts/:id'') = colonTokens ''users//:id/posts/:id''"
    by blast
  with s t show ?thesis by simp
qed

text \<open>
  C6.  \<open>_cleanPath\<close> gives the leading separator and collapses repeated ones, but it
  never removes a trailing separator: on the input of the repository's own test
  (\<open>'/api//users///'\<close>, expected \<open>'/api/users'\<close>) it returns \<open>'/api/users/'\<close>.
\<close>

theorem cleanPath_keeps_trailing_slash:
  "cleanPath ''/api//users///'' = ''/api/users/''"
  by (simp add: path_eval)

lemma cleanPath_idempotent_no_anchor:
  assumes "caret \<notin> set p" and "dollar \<notin> set p"
  shows "cleanPath (cleanPath p) = cleanPath p"
proof (cases "p = []")
  case True
  have "stripArtifacts [slash] = [slash]"
    by (simp add: path_eval)
  then show ?thesis
    using True by (simp add: cleanPath_def ensureLeadingSlash_def)
next
  case False
  let ?q = "removeBackslashes p"
  let ?t = "ensureLeadingSlash (collapseSlashes ?q)"
  have cp: "cleanPath p = ?t"
    using False assms by (simp add: cleanPath_def stripArtifacts_no_anchor)
  have sub: "set ?t \<subseteq> insert slash (set ?q)"
    using set_lead[of "collapseSlashes ?q"] by (simp add: set_collapseSlashes)
  have "caret \<notin> set ?t" "dollar \<notin> set ?t" "backslash \<notin> set ?t"
    using sub assms
    by (auto simp: removeBackslashes_def slash_def caret_def dollar_def backslash_def)
  then have st: "stripArtifacts ?t = ?t"
    by (simp add: stripArtifacts_no_anchor removeBackslashes_id)
  have "cleanPath ?t = ensureLeadingSlash (collapseSlashes ?t)"
    using lead_nonempty st by (simp add: cleanPath_def)
  also have "\<dots> = ?t"
    by (simp add: collapse_lead lead_lead)
  finally show ?thesis
    using cp by simp
qed


text \<open>
  C7.  \<open>clean\<close> is not idempotent: a call removes one end-of-string anchor and one
  layer of start-of-string anchors, and the next call can remove more.
\<close>

theorem cleanPath_idempotence_counterexample:
  "cleanPath (cleanPath ''a$$'') \<noteq> cleanPath ''a$$'' \<and>
   cleanPath (cleanPath ''^^/'') \<noteq> cleanPath ''^^/''"
  by (simp add: path_eval)

text \<open>
  C7, as amended.  \<open>clean(clean(p)) = clean(p)\<close> holds exactly when \<open>clean(p)\<close> holds no
  artifact any more, that is when stripping the artifacts from \<open>clean(p)\<close> changes
  nothing; this is so for every path \<open>p\<close> that holds neither a caret nor a dollar sign
  (backslashes, repeated separators and a missing leading separator are allowed).
\<close>

theorem cleanPath_idempotence:
  "(cleanPath (cleanPath p) = cleanPath p \<longleftrightarrow> stripArtifacts (cleanPath p) = cleanPath p) \<and>
   (caret \<notin> set p \<and> dollar \<notin> set p \<longrightarrow> cleanPath (cleanPath p) = cleanPath p)"
  using cleanPath_stable cleanPath_unstable cleanPath_idempotent_no_anchor by blast

theorem cleanPath_idempotence_witness:
  "caret \<notin> set ''api//users/:id/'' \<and> dollar \<notin> set ''api//users/:id/'' \<and>
   cleanPath (cleanPath ''api//users/:id/'') = cleanPath ''api//users/:id/'' \<and>
   stripArtifacts (cleanPath ''api//users/:id/'') = cleanPath ''api//users/:id/''"
proof -
  have c: "caret \<notin> set ''api//users/:id/''" by (simp add: caret_def)
  have d: "dollar \<notin> set ''api//users/:id/''" by (simp add: dollar_def)
  from cleanPath_idempotence[of "''api//users/:id/''"] c d show ?thesis by blast
qed


section \<open>Properties of the change analysis\<close>

subsection \<open>Maps built from entry lists\<close>

lemma setProp_keys: "fst ` set (setProp k v m) = insert k (fst ` set m)"
  by (induction m) auto

lemma setProp_mem: "e \<in> set (setProp k v m) \<Longrightarrow> e = (k, v) \<or> e \<in> set m"
  by (induction m) (auto split: if_splits)

lemma setProp_distinct: "distinct (map fst m) \<Longrightarrow> distinct (map fst (setProp k v m))"
proof (induction m)
  case Nil
  show ?case by simp
next
  case (Cons p ps)
  have "fst ` set (setProp k v ps) = insert k (fst ` set ps)"
    by (rule setProp_keys)
  with Cons show ?case by auto
qed

lemma foldl_setProp_keys:
  "fst ` set (foldl (\<lambda>m (k, v). setProp k v m) m es) = fst ` set m \<union> fst ` set es"
proof (induction es arbitrary: m)
  case Nil
  show ?case by simp
next
  case (Cons x xs)
  obtain k v where x: "x = (k, v)" by (cases x)
  have "fst ` set (foldl (\<lambda>m (k, v). setProp k v m) (setProp k v m) xs)
          = insert k (fst ` set m) \<union> fst ` set xs"
    by (simp add: Cons.IH setProp_keys)
  then show ?case by (simp add: x)
qed

lemma foldl_setProp_mem:
  "e \<in> set (foldl (\<lambda>m (k, v). setProp k v m) m es) \<Longrightarrow> e \<in> set m \<or> e \<in> set es"
proof (induction es arbitrary: m)
  case Nil
  then show ?case by simp
next
  case (Cons x xs)
  obtain k v where x: "x = (k, v)" by (cases x)
  from Cons.prems have "e \<in> set (foldl (\<lambda>m (k, v). setProp k v m) (setProp k v m) xs)"
    by (simp add: x)
  from Cons.IH[OF this] show ?case
    using setProp_mem[of e k v m] x by auto
qed

lemma foldl_setProp_distinct:
  "distinct (map fst m) \<Longrightarrow> distinct (map fst (foldl (\<lambda>m (k, v). setProp k v m) m es))"
  by (induction es arbitrary: m) (auto simp: setProp_distinct split: prod.splits)

lemma newMap_keys: "fst ` set (newMap es) = fst ` set es"
  by (simp add: newMap_def foldl_setProp_keys)

lemma newMap_mem: "e \<in> set (newMap es) \<Longrightarrow> e \<in> set es"
  using foldl_setProp_mem[of e "[]" es] by (simp add: newMap_def)

lemma newMap_distinct: "distinct (map fst (newMap es))"
  by (simp add: newMap_def foldl_setProp_distinct)

lemma mapHas_snapshotMap: "mapHas (snapshotMap ds) k \<longleftrightarrow> k \<in> docKey ` set ds"
  by (simp add: snapshotMap_def mapHas_def newMap_keys image_image)

subsection \<open>The three loops\<close>

lemma removed_loop_deprecated:
  "deprecatedEndpoints (foldl (removedStep nm) c es) =
     deprecatedEndpoints c @ map (\<lambda>e. endpointLabel (snd e)) (filter (isRemoved nm) es)"
  by (induction es arbitrary: c) (auto simp: removedStep_def isRemoved_def)

lemma removed_loop_breaking:
  "breakingChanges (foldl (removedStep nm) c es) =
     breakingChanges c @
       map (\<lambda>e. ''Removed endpoint: '' @ endpointLabel (snd e)) (filter (isRemoved nm) es)"
  by (induction es arbitrary: c) (auto simp: removedStep_def isRemoved_def)

lemma added_loop_other:
  "deprecatedEndpoints (foldl (addedStep om) c es) = deprecatedEndpoints c"
  "breakingChanges (foldl (addedStep om) c es) = breakingChanges c"
  by (induction es arbitrary: c) (auto simp: addedStep_def)

lemma modifiedStep_deprecated:
  "deprecatedEndpoints (modifiedStep om c e) = deprecatedEndpoints c"
  by (auto simp: modifiedStep_def Let_def split: prod.splits option.splits)

lemma modifiedStep_breaking:
  "set (breakingChanges c) \<subseteq> set (breakingChanges (modifiedStep om c e))"
  by (auto simp: modifiedStep_def Let_def split: prod.splits option.splits)

lemma modified_loop_deprecated:
  "deprecatedEndpoints (foldl (modifiedStep om) c es) = deprecatedEndpoints c"
  by (induction es arbitrary: c) (auto simp: modifiedStep_deprecated)

lemma modified_loop_breaking:
  "set (breakingChanges c) \<subseteq> set (breakingChanges (foldl (modifiedStep om) c es))"
proof (induction es arbitrary: c)
  case Nil
  show ?case by simp
next
  case (Cons e es)
  have "set (breakingChanges c) \<subseteq> set (breakingChanges (modifiedStep om c e))"
    by (rule modifiedStep_breaking)
  also have "\<dots> \<subseteq> set (breakingChanges (foldl (modifiedStep om) (modifiedStep om c e) es))"
    by (rule Cons.IH)
  finally show ?case by simp
qed

lemma changes_determineBump: "changes (determineBump c) = c"
  by (simp add: determineBump_def)

lemma bumpType_major: "breakingChanges c \<noteq> [] \<Longrightarrow> bumpType (determineBump c) = ''major''"
  by (simp add: determineBump_def)

lemma analyze_deprecated:
  "deprecatedEndpoints (changes (analyzeChanges oldDocs newDocs)) =
     map (\<lambda>e. endpointLabel (snd e))
       (filter (isRemoved (snapshotMap newDocs)) (snapshotMap oldDocs))"
  by (simp add: analyzeChanges_def Let_def changes_determineBump modified_loop_deprecated
      removed_loop_deprecated added_loop_other snapshotMap_def)

lemma analyze_breaking:
  "set (map (\<lambda>e. ''Removed endpoint: '' @ endpointLabel (snd e))
          (filter (isRemoved (snapshotMap newDocs)) (snapshotMap oldDocs)))
    \<subseteq> set (breakingChanges (changes (analyzeChanges oldDocs newDocs)))"
proof -
  let ?om = "snapshotMap oldDocs" and ?nm = "snapshotMap newDocs"
  let ?c0 = "\<lparr> breakingChanges = [], newEndpoints = [], modifiedEndpoints = [],
                deprecatedEndpoints = [], internalChanges = [] \<rparr>"
  let ?c2 = "foldl (removedStep ?nm) (foldl (addedStep ?om) ?c0 ?nm) ?om"
  have "breakingChanges ?c2 =
          map (\<lambda>e. ''Removed endpoint: '' @ endpointLabel (snd e)) (filter (isRemoved ?nm) ?om)"
    by (simp add: removed_loop_breaking added_loop_other)
  moreover have "set (breakingChanges ?c2)
                   \<subseteq> set (breakingChanges (foldl (modifiedStep ?om) ?c2 ?nm))"
    by (rule modified_loop_breaking)
  moreover have "changes (analyzeChanges oldDocs newDocs) = foldl (modifiedStep ?om) ?c2 ?nm"
    by (simp add: analyzeChanges_def Let_def changes_determineBump snapshotMap_def)
  ultimately show ?thesis by simp
qed

lemma removed_entry:
  assumes "d \<in> set oldDocs" "docKey d \<notin> docKey ` set newDocs"
  shows "\<exists>d'\<in>set oldDocs. docKey d' = docKey d \<and>
           (docKey d, d') \<in> set (filter (isRemoved (snapshotMap newDocs)) (snapshotMap oldDocs))"
proof -
  have "docKey d \<in> fst ` set (snapshotMap oldDocs)"
    using assms(1) by (auto simp: snapshotMap_def newMap_keys image_image)
  then obtain d' where e: "(docKey d, d') \<in> set (snapshotMap oldDocs)"
    by auto
  then have "(docKey d, d') \<in> set (map (\<lambda>doc. (docKey doc, doc)) oldDocs)"
    unfolding snapshotMap_def by (rule newMap_mem)
  then have d': "d' \<in> set oldDocs" "docKey d' = docKey d"
    by auto
  have "isRemoved (snapshotMap newDocs) (docKey d, d')"
    using assms(2) by (simp add: isRemoved_def mapHas_snapshotMap)
  with e d' show ?thesis by auto
qed

text \<open>Methods hold no colon, so the key determines method and path.\<close>

lemma docKey_inj:
  assumes "docKey d = docKey d'" "CHR '':'' \<notin> set (httpMethod d)" "CHR '':'' \<notin> set (httpMethod d')"
  shows "httpMethod d = httpMethod d' \<and> path d = path d'"
proof -
  have tw: "\<And>m p. CHR '':'' \<notin> set m \<Longrightarrow>
              takeWhile (\<lambda>c. c \<noteq> CHR '':'') (m @ CHR '':'' # p) = m"
    by (subst takeWhile_append2) auto
  have "takeWhile (\<lambda>c. c \<noteq> CHR '':'') (docKey d) = takeWhile (\<lambda>c. c \<noteq> CHR '':'') (docKey d')"
    using assms(1) by simp
  then have m: "httpMethod d = httpMethod d'"
    using assms(2,3) by (simp add: docKey_def tw)
  then have "path d = path d'"
    using assms(1) by (simp add: docKey_def)
  with m show ?thesis by simp
qed

lemma removed_count:
  "length (deprecatedEndpoints (changes (analyzeChanges oldDocs newDocs))) =
     card (docKey ` set oldDocs - docKey ` set newDocs)"
proof -
  let ?om = "snapshotMap oldDocs" and ?nm = "snapshotMap newDocs"
  have d: "distinct (map fst (filter (isRemoved ?nm) ?om))"
    using newMap_distinct[of "map (\<lambda>doc. (docKey doc, doc)) oldDocs"]
    by (simp add: snapshotMap_def distinct_map_filter)
  have "set (filter (isRemoved ?nm) ?om) = {e \<in> set ?om. fst e \<notin> docKey ` set newDocs}"
    by (auto simp: isRemoved_def mapHas_snapshotMap)
  then have "fst ` set (filter (isRemoved ?nm) ?om) = fst ` set ?om - docKey ` set newDocs"
    by auto
  moreover have "fst ` set ?om = docKey ` set oldDocs"
    by (simp add: snapshotMap_def newMap_keys image_image)
  ultimately have "fst ` set (filter (isRemoved ?nm) ?om)
                     = docKey ` set oldDocs - docKey ` set newDocs"
    by simp
  then have "card (docKey ` set oldDocs - docKey ` set newDocs)
               = card (set (map fst (filter (isRemoved ?nm) ?om)))"
    by simp
  also have "\<dots> = length (map fst (filter (isRemoved ?nm) ?om))"
    using d by (rule distinct_card)
  finally show ?thesis by (simp add: analyze_deprecated)
qed

lemma removed_general:
  assumes "d \<in> set oldDocs" "docKey d \<notin> docKey ` set newDocs"
  shows "\<exists>d'\<in>set oldDocs. docKey d' = docKey d \<and>
           endpointLabel d' \<in> set (deprecatedEndpoints (changes (analyzeChanges oldDocs newDocs))) \<and>
           ''Removed endpoint: '' @ endpointLabel d'
              \<in> set (breakingChanges (changes (analyzeChanges oldDocs newDocs)))"
proof -
  from removed_entry[OF assms] obtain d' where d': "d' \<in> set oldDocs" "docKey d' = docKey d"
    and e: "(docKey d, d') \<in> set (filter (isRemoved (snapshotMap newDocs)) (snapshotMap oldDocs))"
    by blast
  from e have "endpointLabel d' \<in> set (deprecatedEndpoints (changes (analyzeChanges oldDocs newDocs)))"
    unfolding analyze_deprecated by force
  moreover from e have "''Removed endpoint: '' @ endpointLabel d'
      \<in> set (map (\<lambda>e. ''Removed endpoint: '' @ endpointLabel (snd e))
          (filter (isRemoved (snapshotMap newDocs)) (snapshotMap oldDocs)))"
    by force
  then have "''Removed endpoint: '' @ endpointLabel d'
      \<in> set (breakingChanges (changes (analyzeChanges oldDocs newDocs)))"
    using analyze_breaking by blast
  ultimately show ?thesis using d' by blast
qed

lemma removed_major:
  assumes "d \<in> set oldDocs" "docKey d \<notin> docKey ` set newDocs"
  shows "bumpType (analyzeChanges oldDocs newDocs) = ''major''"
proof -
  from removed_general[OF assms]
  have ne: "breakingChanges (changes (analyzeChanges oldDocs newDocs)) \<noteq> []"
    by auto
  have "analyzeChanges oldDocs newDocs = determineBump (changes (analyzeChanges oldDocs newDocs))"
    by (simp add: analyzeChanges_def Let_def changes_determineBump)
  then show ?thesis
    using bumpType_major[OF ne] by simp
qed

lemmas changes_eval =
  analyzeChanges_def newMap_def addedStep_def removedStep_def modifiedStep_def mapHas_def
  mapGet_def determineBump_def bareDoc_def docKey_def endpointLabel_def Let_def
  detectModifications_def requiredParamStep_def requiredNames_def newSet_def
  hasResponseSchemaChanged_def schemaProps_def joinValues_def

subsection \<open>Removed endpoints\<close>

text \<open>
  C1.  Every key \<open>method:path\<close> of the previous snapshot that no entry of the current
  snapshot has is appended to \<open>deprecatedEndpoints\<close> as \<open>METHOD path\<close> and to
  \<open>breakingChanges\<close> as \<open>Removed endpoint: METHOD path\<close> (method and path being those of
  the entry the map holds under that key, which are those of every entry with that key
  when methods hold no colon), once per key, and the bump type is then \<open>major\<close>.  For
  previous = [GET /a with no parameters] and current = [] the result is
  \<open>deprecatedEndpoints = ["GET /a"]\<close> and one breaking change that mentions \<open>/a\<close>.
\<close>

theorem analyzeChanges_removed_endpoints:
  "(\<forall>d\<in>set oldDocs. docKey d \<notin> docKey ` set newDocs \<longrightarrow>
      (\<exists>d'\<in>set oldDocs. docKey d' = docKey d \<and>
          endpointLabel d' \<in> set (deprecatedEndpoints (changes (analyzeChanges oldDocs newDocs))) \<and>
          ''Removed endpoint: '' @ endpointLabel d'
             \<in> set (breakingChanges (changes (analyzeChanges oldDocs newDocs)))) \<and>
      ((\<forall>x\<in>set oldDocs. CHR '':'' \<notin> set (httpMethod x)) \<longrightarrow>
          endpointLabel d \<in> set (deprecatedEndpoints (changes (analyzeChanges oldDocs newDocs))) \<and>
          ''Removed endpoint: '' @ endpointLabel d
             \<in> set (breakingChanges (changes (analyzeChanges oldDocs newDocs)))) \<and>
      bumpType (analyzeChanges oldDocs newDocs) = ''major'') \<and>
   length (deprecatedEndpoints (changes (analyzeChanges oldDocs newDocs)))
     = card (docKey ` set oldDocs - docKey ` set newDocs) \<and>
   deprecatedEndpoints (changes (analyzeChanges [bareDoc ''GET'' ''/a''] [])) = [''GET /a''] \<and>
   breakingChanges (changes (analyzeChanges [bareDoc ''GET'' ''/a''] []))
     = [''Removed endpoint: GET /a''] \<and>
   bumpType (analyzeChanges [bareDoc ''GET'' ''/a''] []) = ''major''"
proof -
  have general: "\<exists>d'\<in>set oldDocs. docKey d' = docKey d \<and>
          endpointLabel d' \<in> set (deprecatedEndpoints (changes (analyzeChanges oldDocs newDocs))) \<and>
          ''Removed endpoint: '' @ endpointLabel d'
             \<in> set (breakingChanges (changes (analyzeChanges oldDocs newDocs)))"
    if "d \<in> set oldDocs" "docKey d \<notin> docKey ` set newDocs" for d
    using that by (rule removed_general)
  have exact: "endpointLabel d \<in> set (deprecatedEndpoints (changes (analyzeChanges oldDocs newDocs))) \<and>
          ''Removed endpoint: '' @ endpointLabel d
             \<in> set (breakingChanges (changes (analyzeChanges oldDocs newDocs)))"
    if d: "d \<in> set oldDocs" "docKey d \<notin> docKey ` set newDocs"
      and nc: "\<forall>x\<in>set oldDocs. CHR '':'' \<notin> set (httpMethod x)" for d
  proof -
    from general[OF d] obtain d' where d': "d' \<in> set oldDocs" "docKey d' = docKey d"
      and in1: "endpointLabel d' \<in> set (deprecatedEndpoints (changes (analyzeChanges oldDocs newDocs)))"
      and in2: "''Removed endpoint: '' @ endpointLabel d'
             \<in> set (breakingChanges (changes (analyzeChanges oldDocs newDocs)))"
      by blast
    have "httpMethod d' = httpMethod d \<and> path d' = path d"
      using docKey_inj[OF d'(2)] nc d(1) d'(1) by blast
    then have "endpointLabel d' = endpointLabel d"
      by (simp add: endpointLabel_def)
    with in1 in2 show ?thesis by simp
  qed
  have major: "bumpType (analyzeChanges oldDocs newDocs) = ''major''"
    if "d \<in> set oldDocs" "docKey d \<notin> docKey ` set newDocs" for d
    using that by (rule removed_major)
  have ex1: "deprecatedEndpoints (changes (analyzeChanges [bareDoc ''GET'' ''/a''] [])) = [''GET /a'']"
    by (simp add: changes_eval)
  have ex2: "breakingChanges (changes (analyzeChanges [bareDoc ''GET'' ''/a''] []))
     = [''Removed endpoint: GET /a'']"
    by (simp add: changes_eval)
  have ex3: "bumpType (analyzeChanges [bareDoc ''GET'' ''/a''] []) = ''major''"
    by (simp add: changes_eval)
  show ?thesis
    using general exact major removed_count ex1 ex2 ex3 by blast
qed

theorem analyzeChanges_removed_endpoints_witness:
  "bareDoc ''GET'' ''/a'' \<in> set [bareDoc ''GET'' ''/a'', bareDoc ''POST'' ''/b''] \<and>
   docKey (bareDoc ''GET'' ''/a'') \<notin> docKey ` set [bareDoc ''POST'' ''/b''] \<and>
   CHR '':'' \<notin> set (httpMethod (bareDoc ''GET'' ''/a'')) \<and>
   CHR '':'' \<notin> set (httpMethod (bareDoc ''POST'' ''/b'')) \<and>
   ''GET /a'' \<in> set (deprecatedEndpoints (changes
       (analyzeChanges [bareDoc ''GET'' ''/a'', bareDoc ''POST'' ''/b''] [bareDoc ''POST'' ''/b'']))) \<and>
   ''Removed endpoint: GET /a'' \<in> set (breakingChanges (changes
       (analyzeChanges [bareDoc ''GET'' ''/a'', bareDoc ''POST'' ''/b''] [bareDoc ''POST'' ''/b'']))) \<and>
   bumpType (analyzeChanges [bareDoc ''GET'' ''/a'', bareDoc ''POST'' ''/b''] [bareDoc ''POST'' ''/b''])
     = ''major''"
proof -
  let ?old = "[bareDoc ''GET'' ''/a'', bareDoc ''POST'' ''/b'']"
  let ?new = "[bareDoc ''POST'' ''/b'']"
  have m: "bareDoc ''GET'' ''/a'' \<in> set ?old" by simp
  have k: "docKey (bareDoc ''GET'' ''/a'') \<notin> docKey ` set ?new"
    by (simp add: docKey_def bareDoc_def)
  have nc: "\<forall>x\<in>set ?old. CHR '':'' \<notin> set (httpMethod x)"
    by (simp add: bareDoc_def)
  have l: "endpointLabel (bareDoc ''GET'' ''/a'') = ''GET /a''"
    by (simp add: endpointLabel_def bareDoc_def)
  from analyzeChanges_removed_endpoints[of ?old ?new] m k nc
  have "endpointLabel (bareDoc ''GET'' ''/a'')
          \<in> set (deprecatedEndpoints (changes (analyzeChanges ?old ?new))) \<and>
        ''Removed endpoint: '' @ endpointLabel (bareDoc ''GET'' ''/a'')
          \<in> set (breakingChanges (changes (analyzeChanges ?old ?new))) \<and>
        bumpType (analyzeChanges ?old ?new) = ''major''"
    by blast
  moreover have "CHR '':'' \<notin> set (httpMethod (bareDoc ''GET'' ''/a''))"
    "CHR '':'' \<notin> set (httpMethod (bareDoc ''POST'' ''/b''))"
    by (simp_all add: bareDoc_def)
  ultimately show ?thesis
    using m k l by simp
qed

subsection \<open>Endpoints present in both snapshots\<close>

















section \<open>Properties of the source analysis\<close>

lemmas ast_eval =
  analyzeCode_def descendants_def preorder.simps analyzeFunctionNode_def visitNode_def
  analyzeMemberExpression_def analyzeCallExpression_def analyzeThrowStatement_def
  analyzeReturnStatement_def emptyAnalysis_def recordField_def recordWhole_def recordJson_def
  recordSend_def recordStatus_def recordChain_def isRequestName_def isResponseName_def
  jsOr_def firstArgument_def propertyKey_def propertyValue_def assignProp_def defineProp_def isArrayIndex_def isNumber_def Let_def


subsection \<open>Request usage\<close>

text \<open>
  C3.  For the source \<open>const f = (req,res) => { const {a,b} = req.body; res.json({x:1}); }\<close>
  the analysis holds one function; its first response structure is \<open>{x: 1}\<close>, but its
  \<open>requestUsage.body\<close> is \<open>['__ALL__']\<close>: the destructuring pattern is never looked at, so
  neither \<open>a\<close> nor \<open>b\<close> is recorded, against the claim and against the first test of
  the repository's test suite.
\<close>

theorem destructured_body_fields_not_recorded:
  "analysed (analyzeCode (Inr destructuringHandler) ''unknown'') =
     [\<lparr> functionName = PStr ''f'', isAsync = False,
        requestUsage = \<lparr> body = [PStr ''__ALL__''], query = [], params = [], headers = [] \<rparr>,
        responseUsage = \<lparr> responseCodes = [], jsonCalls = [JObj [(''x'', JNum 1)]],
                          sendCalls = [], structures = [JObj [(''x'', JNum 1)]] \<rparr>,
        thrown = [], returnValues = [] \<rparr>]"
  by (simp add: destructuringHandler_def ast_eval)


text \<open>
  What \<open>_analyzeMemberExpression\<close> records for an access through \<open>req\<close> or \<open>request\<close>:
  the field of a two-level access for each of the four names, the sentinel for a direct
  access to \<open>body\<close>, \<open>query\<close> or \<open>params\<close>, and nothing for a direct access to \<open>headers\<close>.
\<close>

lemma member_access_recorded:
  assumes "x = ''req'' \<or> x = ''request''" and "z \<noteq> []"
  shows
    "requestUsage (analyzeMemberExpression
        (MemberExpression (MemberExpression (Identifier x) (Identifier ''body'')) (Identifier z)) a)
       = (requestUsage a) \<lparr> body := body (requestUsage a) @ [PStr z] \<rparr>"
    "requestUsage (analyzeMemberExpression
        (MemberExpression (MemberExpression (Identifier x) (Identifier ''query'')) (Identifier z)) a)
       = (requestUsage a) \<lparr> query := query (requestUsage a) @ [PStr z] \<rparr>"
    "requestUsage (analyzeMemberExpression
        (MemberExpression (MemberExpression (Identifier x) (Identifier ''params'')) (Identifier z)) a)
       = (requestUsage a) \<lparr> params := params (requestUsage a) @ [PStr z] \<rparr>"
    "requestUsage (analyzeMemberExpression
        (MemberExpression (MemberExpression (Identifier x) (Identifier ''headers'')) (Identifier z)) a)
       = (requestUsage a) \<lparr> headers := headers (requestUsage a) @ [PStr z] \<rparr>"
    "requestUsage (analyzeMemberExpression (MemberExpression (Identifier x) (Identifier ''body'')) a)
       = (requestUsage a) \<lparr> body := body (requestUsage a) @ [PStr ''__ALL__''] \<rparr>"
    "requestUsage (analyzeMemberExpression (MemberExpression (Identifier x) (Identifier ''query'')) a)
       = (requestUsage a) \<lparr> query := query (requestUsage a) @ [PStr ''__ALL__''] \<rparr>"
    "requestUsage (analyzeMemberExpression (MemberExpression (Identifier x) (Identifier ''params'')) a)
       = (requestUsage a) \<lparr> params := params (requestUsage a) @ [PStr ''__ALL__''] \<rparr>"
    "requestUsage (analyzeMemberExpression (MemberExpression (Identifier x) (Identifier ''headers'')) a)
       = requestUsage a"
  using assms by (auto simp: ast_eval)


text \<open>
  C5.  The one-level rule does not reach \<open>headers\<close>: for \<open>req.headers\<close> the analysis is
  left as it was, while the two-level branch of the same function records
  \<open>req.headers.host\<close> and the one-level branch records \<open>req.body\<close>.
\<close>

theorem whole_headers_access_not_recorded:
  "analyzeMemberExpression (MemberExpression (Identifier ''req'') (Identifier ''headers''))
      (emptyAnalysis PUndefined False) = emptyAnalysis PUndefined False \<and>
   headers (requestUsage (analyzeMemberExpression
      (MemberExpression (MemberExpression (Identifier ''req'') (Identifier ''headers''))
         (Identifier ''host'')) (emptyAnalysis PUndefined False))) = [PStr ''host''] \<and>
   body (requestUsage (analyzeMemberExpression
      (MemberExpression (Identifier ''req'') (Identifier ''body''))
      (emptyAnalysis PUndefined False))) = [PStr ''__ALL__'']"
  by (simp add: ast_eval)


subsection \<open>The shape abstraction\<close>









section \<open>Properties of the documentation assembly\<close>

lemma addPathField_prefix: "\<exists>ys. parameters (addPathField d f) = parameters d @ ys"
  by (simp add: addPathField_def)

lemma addPathField_loop_prefix: "\<exists>ys. parameters (foldl addPathField d fs) = parameters d @ ys"
proof (induction fs arbitrary: d)
  case Nil show ?case by simp
next
  case (Cons f fs)
  obtain ys where ys: "parameters (addPathField d f) = parameters d @ ys"
    using addPathField_prefix by blast
  obtain zs where "parameters (foldl addPathField (addPathField d f) fs) = parameters (addPathField d f) @ zs"
    using Cons.IH by blast
  with ys show ?case by simp
qed

lemma extractRequestParameters_prefix:
  "\<exists>ys. parameters (extractRequestParameters fa d) = parameters d @ ys"
proof -
  let ?u = "requestUsage fa"
  let ?d1 = "d \<lparr> parameters := parameters d @ map bodyParameter (filter notAll (body ?u)) \<rparr>"
  let ?d2 = "(if length (filter notAll (body ?u)) = 0 \<and> PStr ''__ALL__'' \<in> set (body ?u)
                then ?d1 \<lparr> requestSchema :=
                       JObj [(''type'', JStr ''object''),
                             (''description'', JStr ''Request body (structure not auto-detected)'')] \<rparr>
                else ?d1)"
  let ?d3 = "?d2 \<lparr> parameters := parameters ?d2 @ map queryParameter (filter notAll (query ?u)) \<rparr>"
  obtain zs where zs: "parameters (foldl addPathField ?d3 (filter notAll (params ?u))) = parameters ?d3 @ zs"
    using addPathField_loop_prefix by blast
  have "parameters (extractRequestParameters fa d) =
          parameters (foldl addPathField ?d3 (filter notAll (params ?u)))
            @ map headerParameter (filter notAll (headers ?u))"
    by (simp add: extractRequestParameters_def Let_def)
  also have "\<dots> = parameters d @ (map bodyParameter (filter notAll (body ?u))
        @ map queryParameter (filter notAll (query ?u)) @ zs
        @ map headerParameter (filter notAll (headers ?u)))"
    using zs by simp
  finally show ?thesis by blast
qed

lemma extractResponseStructure_parameters:
  "parameters (extractResponseStructure fa d) = parameters d"
  by (simp add: extractResponseStructure_def Let_def split: list.splits)

lemma loadSchemas_parameters: "parameters (loadSchemas rs d) = parameters d"
  by (simp add: loadSchemas_def Let_def split: option.splits prod.splits)

lemma build_parameters_prefix:
  "\<exists>ys. parameters (buildRouteDocumentation parse rs r)
          = map (\<lambda>param. pathParameter (PStr param)) (routeParameters r) @ ys"
proof -
  let ?d0 = "\<lparr> httpMethod = routeMethod r, path = routePath r,
                  handlerName = routeHandlerName r, handlerType = routeHandlerType r,
                  middleware = routeMiddleware r, parameters = [], requestSchema = JNull,
                  responseSchema = JNull, statusCodes = [], exampleResponse = None,
                  metadata = Built (routeIsAsync r) (parameterCount r),
                  breakingChange = False, breakingChangeDescription = None \<rparr>"
  let ?d1 = "?d0 \<lparr> parameters := parameters ?d0 @
                        map (\<lambda>param. pathParameter (PStr param)) (routeParameters r) \<rparr>"
  have p1: "parameters ?d1 = map (\<lambda>param. pathParameter (PStr param)) (routeParameters r)"
    by simp
  have step: "\<exists>ys. parameters
      (let doc = extractRequestParameters fa ?d1;
           doc = extractResponseStructure fa doc;
           codes = responseCodes (responseUsage fa)
       in if length codes > 0 then doc \<lparr> statusCodes := newSet codes \<rparr> else doc)
     = parameters ?d1 @ ys" for fa
    using extractRequestParameters_prefix[of fa ?d1]
    by (auto simp: Let_def extractResponseStructure_parameters)
  have "\<exists>ys. parameters (case functionSource r of
                  None \<Rightarrow> ?d1
                | Some source \<Rightarrow>
                    if source = [] then ?d1
                    else (case analysed (analyzeCode (parse source) (routeHandlerName r)) of
                            [] \<Rightarrow> ?d1
                          | functionAnalysis # rest \<Rightarrow>
                              (let doc = extractRequestParameters functionAnalysis ?d1;
                                   doc = extractResponseStructure functionAnalysis doc;
                                   codes = responseCodes (responseUsage functionAnalysis)
                               in if length codes > 0
                                  then doc \<lparr> statusCodes := newSet codes \<rparr> else doc)))
        = parameters ?d1 @ ys"
    using step by (auto split: option.splits list.splits)
  then show ?thesis
    unfolding buildRouteDocumentation_def Let_def loadSchemas_parameters p1 .
qed

lemma build_parameters_no_source:
  "functionSource r = None \<Longrightarrow>
     parameters (buildRouteDocumentation parse rs r)
       = map (\<lambda>param. pathParameter (PStr param)) (routeParameters r)"
  by (simp add: buildRouteDocumentation_def Let_def loadSchemas_parameters)

lemma posts_parameters:
  "extractPathParameters ''/users/:id/posts/:postId'' = [''id'', ''postId'']"
  by (simp add: colon_def identStart_def identChar_def)


text \<open>
  C8.  A route whose path is \<open>/users/:id/posts/:postId\<close> and whose route parameters are
  the ones extracted from that path is documented with the path parameters \<open>id\<close> and
  \<open>postId\<close>, in this order at the head of the parameter list, each located in the path
  and required: whatever the handler source is and whether or not it can be read and
  parsed, whatever schema files exist, and also when the build fails and the minimal
  documentation is taken.  Without handler source, and in the minimal documentation,
  they are the only parameters.
\<close>

theorem path_parameters_always_documented:
  assumes "routePath r = ''/users/:id/posts/:postId''"
    and "routeParameters r = extractPathParameters (routePath r)"
  shows "map parameterKind (take 2 (parameters (documentRoute parse readSchema failure r)))
           = [(PStr ''id'', ''path'', True), (PStr ''postId'', ''path'', True)] \<and>
         (failure \<noteq> None \<or> functionSource r = None \<longrightarrow>
            map parameterKind (parameters (documentRoute parse readSchema failure r))
              = [(PStr ''id'', ''path'', True), (PStr ''postId'', ''path'', True)])"
proof -
  have rp: "routeParameters r = [''id'', ''postId'']"
    using assms posts_parameters by simp
  show ?thesis
  proof (cases failure)
    case (Some message)
    then show ?thesis
      by (simp add: documentRoute_def createMinimalDoc_def rp parameterKind_def)
  next
    case None
    obtain ys where ys: "parameters (buildRouteDocumentation parse readSchema r)
        = map (\<lambda>param. pathParameter (PStr param)) (routeParameters r) @ ys"
      using build_parameters_prefix by blast
    have a: "map parameterKind (take 2 (parameters (documentRoute parse readSchema failure r)))
           = [(PStr ''id'', ''path'', True), (PStr ''postId'', ''path'', True)]"
      using None ys by (simp add: documentRoute_def rp parameterKind_def pathParameter_def)
    have b: "map parameterKind (parameters (documentRoute parse readSchema failure r))
              = [(PStr ''id'', ''path'', True), (PStr ''postId'', ''path'', True)]"
      if "functionSource r = None"
      using None build_parameters_no_source[OF that]
      by (simp add: documentRoute_def rp parameterKind_def pathParameter_def)
    from a b None show ?thesis by simp
  qed
qed

theorem path_parameters_always_documented_witness:
  "routePath (postsRoute (Some ''text'')) = ''/users/:id/posts/:postId'' \<and>
   routeParameters (postsRoute (Some ''text''))
     = extractPathParameters (routePath (postsRoute (Some ''text''))) \<and>
   map parameterKind (take 2 (parameters
       (documentRoute (\<lambda>source. Inl ''Unexpected token'') (\<lambda>dir schema. None) None
          (postsRoute (Some ''text'')))))
     = [(PStr ''id'', ''path'', True), (PStr ''postId'', ''path'', True)]"
proof -
  have p: "routePath (postsRoute (Some ''text'')) = ''/users/:id/posts/:postId''"
    by (simp add: postsRoute_def)
  have q: "routeParameters (postsRoute (Some ''text''))
             = extractPathParameters (routePath (postsRoute (Some ''text'')))"
    by (simp add: postsRoute_def)
  from path_parameters_always_documented[OF p q] p q show ?thesis by blast
qed


section \<open>Properties of the version bump\<close>

lemma semverInc_unparseable: "parseVersion s = None \<Longrightarrow> semverInc s t = None"
  by (simp add: semverInc_def)


text \<open>
  C10.  \<open>bumpVersion\<close> hands the version, less one leading \<open>v\<close>, to \<open>semver.inc\<close> and
  returns its result unchanged.  So with a library function that yields \<open>null\<close> for
  every version its parser rejects, \<open>bumpVersion\<close> returns \<open>null\<close> whenever the stripped
  version does not parse: it has no other result and no failure of its own.
\<close>

theorem bumpVersion_unparseable:
  assumes "\<And>version bump. parse version = None \<Longrightarrow> inc version bump = None"
    and "parse (stripLeadingV currentVersion) = None"
  shows "bumpVersion inc currentVersion bump = None"
  using assms by (simp add: bumpVersion_def)

theorem bumpVersion_unparseable_witness:
  "parseVersion (stripLeadingV ''vnext'') = None \<and> bumpVersion semverInc ''vnext'' ''minor'' = None"
proof -
  have u: "parseVersion (stripLeadingV ''vnext'') = None"
    by (simp add: parseVersion_def stripLeadingV_def)
  from bumpVersion_unparseable[of parseVersion semverInc, OF semverInc_unparseable u] u
  show ?thesis by simp
qed


text \<open>The increments of the specification, on the modelled library function.\<close>

lemma bumpVersion_examples:
  "bumpVersion semverInc ''1.4.9'' ''major'' = Some ''2.0.0''"
  "bumpVersion semverInc ''1.4.9'' ''minor'' = Some ''1.5.0''"
  "bumpVersion semverInc ''1.4.9'' ''patch'' = Some ''1.4.10''"
  "bumpVersion semverInc ''v1.4.9'' ''patch'' = Some ''1.4.10''"
  by (simp_all add: bumpVersion_def semverInc_def parseVersion_def stripLeadingV_def isNumber_def
      numberValue_def digitValue_def showVersion_def natToString.simps)

end
